theory Spec2Isabelle
  imports Complex_Main
begin

section \<open>The JavaScript built-ins under the date utilities\<close>

text \<open>
  \<^verbatim>\<open>packages/core/src/utils/dateutils.ts\<close> is written against the ECMAScript
  \<^verbatim>\<open>Date\<close> object, regular expressions, \<^verbatim>\<open>String.prototype.split\<close> and
  \<^verbatim>\<open>Number\<close>. This section embeds the parts of those built-ins that the utilities call,
  following the ECMAScript language specification (section "Date Objects").

  A time value is a number of milliseconds since 1970-01-01T00:00:00Z. A JavaScript number
  that is an integer or \<^verbatim>\<open>NaN\<close> is an \<open>int option\<close>, with \<open>None\<close> for \<^verbatim>\<open>NaN\<close>: every
  number the utilities handle is an integer far below \<open>2 ^ 53\<close>, on which double
  arithmetic is exact.
\<close>

subsection \<open>Days, years\<close>

type_synonym number = "int option"

definition msPerDay :: int where
  "msPerDay = 86400000"

definition Day :: "int \<Rightarrow> int" where
  "Day t = t div msPerDay"

definition DaysInYear :: "int \<Rightarrow> int" where
  "DaysInYear y =
     (if y mod 4 \<noteq> 0 then 365
      else if y mod 100 \<noteq> 0 then 366
      else if y mod 400 \<noteq> 0 then 365
      else 366)"

definition DayFromYear :: "int \<Rightarrow> int" where
  "DayFromYear y =
     365 * (y - 1970) + (y - 1969) div 4 - (y - 1901) div 100 + (y - 1601) div 400"

definition TimeFromYear :: "int \<Rightarrow> int" where
  "TimeFromYear y = msPerDay * DayFromYear y"

text \<open>
  \<^verbatim>\<open>YearFromTime(t)\<close> is, in the standard, "the largest integer \<open>y\<close> such that
  \<open>TimeFromYear y \<le> t\<close>". It is computed here by walking upwards from a year that begins
  no later than the day of \<open>t\<close>; \<open>YearFromTime_largest\<close> shows that the result is
  the year the standard describes.
\<close>

function year_up :: "int \<Rightarrow> int \<Rightarrow> int" where
  "year_up d y = (if DayFromYear (y + 1) \<le> d then year_up d (y + 1) else y)"
  by pat_completeness auto

termination year_up
proof (relation "measure (\<lambda>(d, y). nat (d + 1 - DayFromYear (y + 1)))")
  show "wf (measure (\<lambda>(d, y). nat (d + 1 - DayFromYear (y + 1))))" by simp
next
  fix d y :: int
  assume a: "DayFromYear (y + 1) \<le> d"
  have "(y + 1 - 1969) div 4 \<le> (y + 1 + 1 - 1969) div 4"
    by (rule zdiv_mono1) simp_all
  moreover have "(y + 1 + 1 - 1901) div 100 \<le> (y + 1 - 1901 + 100) div 100"
    by (rule zdiv_mono1) simp_all
  moreover have "(y + 1 - 1901 + 100) div 100 = (y + 1 - 1901) div 100 + 1"
    by simp
  moreover have "(y + 1 - 1601) div 400 \<le> (y + 1 + 1 - 1601) div 400"
    by (rule zdiv_mono1) simp_all
  ultimately have "DayFromYear (y + 1) < DayFromYear (y + 1 + 1)"
    by (simp add: DayFromYear_def)
  then show "((d, y + 1), (d, y)) \<in> measure (\<lambda>(d, y). nat (d + 1 - DayFromYear (y + 1)))"
    using a by simp
qed

declare year_up.simps [simp del]

definition YearFromDay :: "int \<Rightarrow> int" where
  "YearFromDay d = year_up d (1970 + (if 0 \<le> d then d div 366 else d div 365))"

definition YearFromTime :: "int \<Rightarrow> int" where
  "YearFromTime t = YearFromDay (Day t)"

definition InLeapYear :: "int \<Rightarrow> int" where
  "InLeapYear t = (if DaysInYear (YearFromTime t) = 366 then 1 else 0)"

definition DayWithinYear :: "int \<Rightarrow> int" where
  "DayWithinYear t = Day t - DayFromYear (YearFromTime t)"

subsection \<open>Month and day of the month\<close>

text \<open>The two tables of the standard, on the day within the year and the leap-year flag.\<close>

definition MonthFromTime :: "int \<Rightarrow> int" where
  "MonthFromTime t =
     (let d = DayWithinYear t; l = InLeapYear t in
      if d < 31 then 0
      else if d < 59 + l then 1
      else if d < 90 + l then 2
      else if d < 120 + l then 3
      else if d < 151 + l then 4
      else if d < 181 + l then 5
      else if d < 212 + l then 6
      else if d < 243 + l then 7
      else if d < 273 + l then 8
      else if d < 304 + l then 9
      else if d < 334 + l then 10
      else 11)"

definition DateFromTime :: "int \<Rightarrow> int" where
  "DateFromTime t =
     (let d = DayWithinYear t; l = InLeapYear t; m = MonthFromTime t in
      if m = 0 then d + 1
      else if m = 1 then d - 30
      else if m = 2 then d - 58 - l
      else if m = 3 then d - 89 - l
      else if m = 4 then d - 119 - l
      else if m = 5 then d - 150 - l
      else if m = 6 then d - 180 - l
      else if m = 7 then d - 211 - l
      else if m = 8 then d - 242 - l
      else if m = 9 then d - 272 - l
      else if m = 10 then d - 303 - l
      else d - 333 - l)"

subsection \<open>Assembling a time value\<close>

text \<open>
  \<^verbatim>\<open>MakeDay(year, month, date)\<close> normalises the month into \<open>ym\<close> and \<open>mn\<close>, finds the
  first day of month \<open>mn\<close> of year \<open>ym\<close> and adds \<open>date - 1\<close>, so a day past the end of
  the month rolls into the next one. \<open>month_start mn l\<close> is the day within the year on
  which month \<open>mn\<close> (0 to 11) begins, \<open>l\<close> being 1 in a leap year;
  \<open>MakeDay_first_of_month\<close> shows that this is the day the standard asks for.

  \<^verbatim>\<open>Date.UTC(year, month, date)\<close> maps a year from 0 to 99 to 1900 plus that year, and
  clips the result to the range of time values.
\<close>

definition month_start :: "int \<Rightarrow> int \<Rightarrow> int" where
  "month_start mn l =
     (if mn = 0 then 0
      else if mn = 1 then 31
      else if mn = 2 then 59 + l
      else if mn = 3 then 90 + l
      else if mn = 4 then 120 + l
      else if mn = 5 then 151 + l
      else if mn = 6 then 181 + l
      else if mn = 7 then 212 + l
      else if mn = 8 then 243 + l
      else if mn = 9 then 273 + l
      else if mn = 10 then 304 + l
      else 334 + l)"

definition MakeDay :: "int \<Rightarrow> int \<Rightarrow> int \<Rightarrow> int" where
  "MakeDay year month dt =
     (let ym = year + month div 12; mn = month mod 12 in
      DayFromYear ym + month_start mn (if DaysInYear ym = 366 then 1 else 0) + dt - 1)"

definition MakeDate :: "int \<Rightarrow> int \<Rightarrow> int" where
  "MakeDate day time = day * msPerDay + time"

definition TimeClip :: "int \<Rightarrow> number" where
  "TimeClip t = (if 8640000000000000 < \<bar>t\<bar> then None else Some t)"

definition Date_UTC :: "number \<Rightarrow> number \<Rightarrow> number \<Rightarrow> number" where
  "Date_UTC year month dt =
     (case year of None \<Rightarrow> None | Some y \<Rightarrow>
      case month of None \<Rightarrow> None | Some m \<Rightarrow>
      case dt of None \<Rightarrow> None | Some d \<Rightarrow>
        TimeClip (MakeDate (MakeDay (if 0 \<le> y \<and> y \<le> 99 then 1900 + y else y) m d) 0))"

subsection \<open>Date objects and the host\<close>

text \<open>
  A \<^verbatim>\<open>Date\<close> object holds a time value or \<^verbatim>\<open>NaN\<close> ("Invalid Date"). The accessors
  \<^verbatim>\<open>getFullYear\<close>, \<^verbatim>\<open>getMonth\<close> and \<^verbatim>\<open>getDate\<close> read the components of the
  \<^emph>\<open>local\<close> time \<open>t + LocalTZA t\<close>, those named \<^verbatim>\<open>getUTC...\<close> the components of \<open>t\<close>
  itself. Two things are left to the host by the standard and are therefore parameters of
  the model: the offset of the local time zone at a given instant, in milliseconds
  (\<open>LocalTZA\<close>), and what \<^verbatim>\<open>Date.parse\<close> returns for a string that is not a valid
  instance of the standard's date-time format (\<open>legacy_parse\<close>).

  \<^verbatim>\<open>===\<close> on two numbers is false as soon as one of them is \<^verbatim>\<open>NaN\<close>.
\<close>

datatype Date = Date (getTime: number)

record Host =
  LocalTZA :: "int \<Rightarrow> int"
  legacy_parse :: "string \<Rightarrow> number"

definition LocalTime :: "Host \<Rightarrow> int \<Rightarrow> int" where
  "LocalTime h t = t + LocalTZA h t"

definition getFullYear :: "Host \<Rightarrow> Date \<Rightarrow> number" where
  "getFullYear h date = map_option (\<lambda>t. YearFromTime (LocalTime h t)) (getTime date)"

definition getMonth :: "Host \<Rightarrow> Date \<Rightarrow> number" where
  "getMonth h date = map_option (\<lambda>t. MonthFromTime (LocalTime h t)) (getTime date)"

definition getDate :: "Host \<Rightarrow> Date \<Rightarrow> number" where
  "getDate h date = map_option (\<lambda>t. DateFromTime (LocalTime h t)) (getTime date)"

definition getUTCFullYear :: "Date \<Rightarrow> number" where
  "getUTCFullYear date = map_option YearFromTime (getTime date)"

definition getUTCMonth :: "Date \<Rightarrow> number" where
  "getUTCMonth date = map_option MonthFromTime (getTime date)"

definition getUTCDate :: "Date \<Rightarrow> number" where
  "getUTCDate date = map_option DateFromTime (getTime date)"

definition strict_eq :: "number \<Rightarrow> number \<Rightarrow> bool" where
  "strict_eq a b = (a \<noteq> None \<and> a = b)"

subsection \<open>Strings: digits, regular expressions, split, Number\<close>

text \<open>
  The three regular expressions of the source are anchored at both ends and consist of
  decimal digits (\<^verbatim>\<open>\d\<close>, which in JavaScript is \<^verbatim>\<open>[0-9]\<close>) and literal characters
  only, so a regular expression is a list of such items and \<^verbatim>\<open>test\<close> matches them one
  to one against the characters of the string.

  \<^verbatim>\<open>split\<close> cuts the string at every separator character and always returns at least
  one piece. \<^verbatim>\<open>Number\<close> is modelled on strings of decimal digits, the only ones that
  reach it behind the regular expressions (the empty string gives 0); any other string is
  mapped to \<^verbatim>\<open>NaN\<close>. Destructuring an array reads its elements by index, a missing
  element being \<^verbatim>\<open>undefined\<close>, which is \<^verbatim>\<open>NaN\<close> as a number (\<open>element\<close>).
\<close>

definition is_digit :: "char \<Rightarrow> bool" where
  "is_digit c = (c \<in> set ''0123456789'')"

definition digit_value :: "char \<Rightarrow> int" where
  "digit_value c = int (of_char c) - 48"

definition digits_value :: "string \<Rightarrow> int" where
  "digits_value s = foldl (\<lambda>a c. 10 * a + digit_value c) 0 s"

definition Number_of_string :: "string \<Rightarrow> number" where
  "Number_of_string s = (if list_all is_digit s then Some (digits_value s) else None)"

datatype rx = Digit | Lit char

fun rx_char :: "rx \<Rightarrow> char \<Rightarrow> bool" where
  "rx_char Digit c = is_digit c"
| "rx_char (Lit x) c = (c = x)"

fun regex_test :: "rx list \<Rightarrow> string \<Rightarrow> bool" where
  "regex_test [] [] = True"
| "regex_test [] (c # cs) = False"
| "regex_test (r # rs) [] = False"
| "regex_test (r # rs) (c # cs) = (rx_char r c \<and> regex_test rs cs)"

fun split_on :: "(char \<Rightarrow> bool) \<Rightarrow> string \<Rightarrow> string list" where
  "split_on sep [] = [[]]"
| "split_on sep (c # cs) =
     (if sep c then [] # split_on sep cs
      else (case split_on sep cs of [] \<Rightarrow> [[c]] | w # ws \<Rightarrow> (c # w) # ws))"

definition element :: "number list \<Rightarrow> nat \<Rightarrow> number" where
  "element xs i = (if i < length xs then xs ! i else None)"

subsection \<open>Parsing a date string\<close>

text \<open>
  \<^verbatim>\<open>new Date(string)\<close> parses with \<^verbatim>\<open>Date.parse\<close>. For the date-only form
  \<^verbatim>\<open>YYYY-MM-DD\<close> of the standard's format, with a month from 01 to 12 and a day that the
  month has, the result is the UTC midnight that begins that day (the year is taken as
  written: there is no mapping of the years 0 to 99 here). For every other string the
  standard lets the implementation fall back on heuristics of its own: V8 reads
  \<^verbatim>\<open>2025-06-31\<close> as 1 July 2025, other engines return \<^verbatim>\<open>NaN\<close>. That case is the
  host's \<open>legacy_parse\<close>.

  \<open>field i n s\<close> is the number written by the \<open>n\<close> digits of \<open>s\<close> from position \<open>i\<close>;
  \<open>real_date y m d\<close> says that day \<open>d\<close> of month \<open>m\<close> (1 to 12) of year \<open>y\<close> exists in
  the calendar.
\<close>

definition DaysInMonth :: "int \<Rightarrow> int \<Rightarrow> int" where
  "DaysInMonth y m =
     (if m = 2 then (if DaysInYear y = 366 then 29 else 28)
      else if m = 4 \<or> m = 6 \<or> m = 9 \<or> m = 11 then 30
      else 31)"

definition real_date :: "int \<Rightarrow> int \<Rightarrow> int \<Rightarrow> bool" where
  "real_date y m d = (1 \<le> m \<and> m \<le> 12 \<and> 1 \<le> d \<and> d \<le> DaysInMonth y m)"

definition field :: "nat \<Rightarrow> nat \<Rightarrow> string \<Rightarrow> int" where
  "field i n s = digits_value (take n (drop i s))"

definition date_only_format :: "rx list" where
  "date_only_format =
     [Digit, Digit, Digit, Digit, Lit CHR ''-'', Digit, Digit, Lit CHR ''-'', Digit, Digit]"

definition Date_parse :: "Host \<Rightarrow> string \<Rightarrow> number" where
  "Date_parse h s =
     (let y = field 0 4 s; m = field 5 2 s; d = field 8 2 s in
      if regex_test date_only_format s \<and> real_date y m d
      then TimeClip (MakeDate (MakeDay y (m - 1) d) 0)
      else legacy_parse h s)"

definition new_Date_string :: "Host \<Rightarrow> string \<Rightarrow> Date" where
  "new_Date_string h s = Date (Date_parse h s)"

definition new_Date_value :: "number \<Rightarrow> Date" where
  "new_Date_value v = Date (case v of None \<Rightarrow> None | Some t \<Rightarrow> TimeClip t)"

section \<open>dateutils.ts\<close>

text \<open>
  The source raises plain \<^verbatim>\<open>Error\<close> objects, told apart by their message:
  \<^verbatim>\<open>Invalid date string provided: ...\<close> in \<^verbatim>\<open>getDateObject\<close> and
  \<^verbatim>\<open>Invalid raw transaction type: ...\<close> in \<^verbatim>\<open>convertRawType\<close>, each followed by the
  offending string. They are the first two constructors of \<open>error\<close>; the third carries
  whatever the number parser raises. A function that can throw returns a sum, \<open>Inl\<close>
  being the exception.

  The three regular expressions are \<^verbatim>\<open>/^\d{4}-\d{2}-\d{2}$/\<close>,
  \<^verbatim>\<open>/^\d{2}\.\d{2}\.\d{4}$/\<close> and \<^verbatim>\<open>/^\d{2}\/\d{2}\/\d{4}$/\<close>.
\<close>

datatype 'e error =
    InvalidDateError string
  | UnknownTransactionTypeError string
  | NumberParserError 'e

datatype DateOrString = Str string | Dat Date

definition iso_re :: "rx list" where
  "iso_re = [Digit, Digit, Digit, Digit, Lit CHR ''-'', Digit, Digit, Lit CHR ''-'', Digit, Digit]"

definition dot_re :: "rx list" where
  "dot_re = [Digit, Digit, Lit CHR ''.'', Digit, Digit, Lit CHR ''.'', Digit, Digit, Digit, Digit]"

definition slash_re :: "rx list" where
  "slash_re = [Digit, Digit, Lit CHR ''/'', Digit, Digit, Lit CHR ''/'', Digit, Digit, Digit, Digit]"

text \<open>
  \<^verbatim>\<open>getCompsFromFormatted\<close> splits on the character class \<^verbatim>\<open>[\\.\\/]\<close>, which holds the
  backslash (character 0x5C), the dot and the slash.
  \<^verbatim>\<open>isValidDateComponents\<close> builds the date with \<^verbatim>\<open>Date.UTC\<close> and compares what the
  local-time accessors return with the components it was given.
\<close>

definition createDateFromComps :: "number \<Rightarrow> number \<Rightarrow> number \<Rightarrow> Date" where
  "createDateFromComps year month day =
     new_Date_value (Date_UTC year (map_option (\<lambda>m. m - 1) month) day)"

definition getCompsFromFormatted :: "string \<Rightarrow> number list" where
  "getCompsFromFormatted formattedDate =
     map Number_of_string
       (split_on (\<lambda>c. c = CHR 0x5C \<or> c = CHR ''.'' \<or> c = CHR ''/'') formattedDate)"

definition isValidDateComponents :: "Host \<Rightarrow> number \<Rightarrow> number \<Rightarrow> number \<Rightarrow> bool" where
  "isValidDateComponents h year month day =
     (let date = createDateFromComps year month day in
      strict_eq (getFullYear h date) year \<and>
      strict_eq (getMonth h date) (map_option (\<lambda>m. m - 1) month) \<and>
      strict_eq (getDate h date) day)"

text \<open>The two validators and \<^verbatim>\<open>getDateObject\<close>, branch by branch as in the source.\<close>

definition isValidISODateString :: "Host \<Rightarrow> string \<Rightarrow> bool" where
  "isValidISODateString h dateString =
     (if \<not> regex_test iso_re dateString then False
      else let date = new_Date_string h dateString in
        if getTime date = None then False
        else let comps = map Number_of_string (split_on (\<lambda>c. c = CHR ''-'') dateString);
                 year = element comps 0; month = element comps 1; day = element comps 2 in
          if \<not> isValidDateComponents h year month day then False
          else True)"

definition isValidFormattedString :: "Host \<Rightarrow> string \<Rightarrow> bool" where
  "isValidFormattedString h formattedDate =
     (if \<not> (regex_test dot_re formattedDate \<or> regex_test slash_re formattedDate) then False
      else let comps = getCompsFromFormatted formattedDate;
               day = element comps 0; month = element comps 1; year = element comps 2 in
        if \<not> isValidDateComponents h year month day then False
        else True)"

definition createDateFromFormatted :: "string \<Rightarrow> Date" where
  "createDateFromFormatted formattedDate =
     (let comps = getCompsFromFormatted formattedDate;
          day = element comps 0; month = element comps 1; year = element comps 2 in
      createDateFromComps year month day)"

definition getDateObject :: "Host \<Rightarrow> DateOrString \<Rightarrow> 'e error + Date" where
  "getDateObject h dateOrString =
     (case dateOrString of
        Str s \<Rightarrow>
          if isValidISODateString h s then Inr (new_Date_string h s)
          else if isValidFormattedString h s then Inr (createDateFromFormatted s)
          else Inl (InvalidDateError s)
      | Dat d \<Rightarrow> Inr d)"

section \<open>The converters\<close>

text \<open>
  Modelled from the spec: the record types \<^verbatim>\<open>RawTransaction\<close>, \<^verbatim>\<open>RawQuoteItem\<close> and
  \<^verbatim>\<open>RawQuoteData\<close> (module \<^verbatim>\<open>./types\<close>) and the classes \<^verbatim>\<open>Transaction\<close> and
  \<^verbatim>\<open>QuoteItem\<close> and the type \<^verbatim>\<open>QuoteData\<close> of the core package, whose declarations
  are not among the sources. The raw records hold text as the broker exports it, with
  the fields that the converters destructure. The canonical records have the fields of
  the specification's data model, and a constructor stores its arguments in them in the
  order of the call: date, type, shares, price, exchange, fees for a transaction; date,
  price for a quote item.

  A number that \<^verbatim>\<open>parseNumberWithAutoLocale\<close> returns is a \<open>real\<close>. The parser itself,
  also of the core package, is a parameter of the converters: a function from text to a
  number or an exception.
\<close>

datatype TransactionType = BUY | SELL

record RawTransaction =
  executionDate :: string
  type :: string
  shares :: string
  price :: string
  totalFees :: string

record Transaction =
  date :: Date
  type :: TransactionType
  shares :: real
  price :: real
  exchange :: "string option"
  fees :: real

record RawQuoteItem =
  date :: string
  price :: string

record QuoteItem =
  date :: string
  price :: real

record RawQuoteData =
  name :: string
  nsin :: string
  exchange :: string
  items :: "RawQuoteItem list"

record QuoteData =
  name :: string
  nsin :: string
  exchange :: string
  items :: "QuoteItem list"

text \<open>
  \<^verbatim>\<open>Array.prototype.map\<close> with a callback that can throw: the elements are converted from
  left to right and the first exception ends the call. The arguments of
  \<^verbatim>\<open>new Transaction(...)\<close> are evaluated from left to right in the same way.
\<close>

fun Array_map :: "('a \<Rightarrow> 'e + 'b) \<Rightarrow> 'a list \<Rightarrow> 'e + 'b list" where
  "Array_map f [] = Inr []"
| "Array_map f (x # xs) =
     (case f x of
        Inl e \<Rightarrow> Inl e
      | Inr y \<Rightarrow> (case Array_map f xs of Inl e \<Rightarrow> Inl e | Inr ys \<Rightarrow> Inr (y # ys)))"

definition convertRawType :: "string \<Rightarrow> 'e error + TransactionType" where
  "convertRawType rawType =
     (if rawType = ''Kauf'' then Inr BUY
      else if rawType = ''Verkauf'' then Inr SELL
      else Inl (UnknownTransactionTypeError rawType))"

definition convertToTransaction ::
  "Host \<Rightarrow> (string \<Rightarrow> 'e error + real) \<Rightarrow> RawTransaction \<Rightarrow> 'e error + Transaction" where
  "convertToTransaction h parseNumberWithAutoLocale data =
     (case getDateObject h (Str (executionDate data)) of Inl e \<Rightarrow> Inl e | Inr a1 \<Rightarrow>
      case convertRawType (RawTransaction.type data) of Inl e \<Rightarrow> Inl e | Inr a2 \<Rightarrow>
      case parseNumberWithAutoLocale (RawTransaction.shares data) of Inl e \<Rightarrow> Inl e | Inr n3 \<Rightarrow>
      case parseNumberWithAutoLocale (RawTransaction.price data) of Inl e \<Rightarrow> Inl e | Inr a4 \<Rightarrow>
      case parseNumberWithAutoLocale (totalFees data) of Inl e \<Rightarrow> Inl e | Inr n6 \<Rightarrow>
        Inr \<lparr>Transaction.date = a1, type = a2, shares = \<bar>n3\<bar>, price = a4,
             exchange = None, fees = \<bar>n6\<bar>\<rparr>)"

definition convertToQuoteItem ::
  "(string \<Rightarrow> 'e error + real) \<Rightarrow> RawQuoteItem \<Rightarrow> 'e error + QuoteItem" where
  "convertToQuoteItem parseNumberWithAutoLocale data =
     (case parseNumberWithAutoLocale (RawQuoteItem.price data) of
        Inl e \<Rightarrow> Inl e
      | Inr p \<Rightarrow> Inr \<lparr>QuoteItem.date = RawQuoteItem.date data, price = p\<rparr>)"

definition convertToQuoteData ::
  "(string \<Rightarrow> 'e error + real) \<Rightarrow> RawQuoteData \<Rightarrow> 'e error + QuoteData" where
  "convertToQuoteData parseNumberWithAutoLocale data =
     (case Array_map (convertToQuoteItem parseNumberWithAutoLocale) (RawQuoteData.items data) of
        Inl e \<Rightarrow> Inl e
      | Inr its \<Rightarrow>
          Inr \<lparr>QuoteData.name = RawQuoteData.name data, nsin = RawQuoteData.nsin data,
               exchange = RawQuoteData.exchange data, items = its\<rparr>)"

section \<open>Notions used to state properties\<close>

text \<open>
  \<open>dialect_fields s\<close> is the year, month and day that a string of one of the supported
  forms writes down, read off by position: \<^verbatim>\<open>YYYY-MM-DD\<close> for the ISO form,
  \<^verbatim>\<open>DD.MM.YYYY\<close> or \<^verbatim>\<open>DD/MM/YYYY\<close> otherwise. \<open>utc_assembled s\<close> is the date that
  UTC-based component assembly makes of them, and \<open>assembled y m d\<close> is the time value
  inside \<^verbatim>\<open>createDateFromComps\<close>.
\<close>

definition dialect_fields :: "string \<Rightarrow> int \<times> int \<times> int" where
  "dialect_fields s =
     (if regex_test iso_re s then (field 0 4 s, field 5 2 s, field 8 2 s)
      else (field 6 4 s, field 3 2 s, field 0 2 s))"

definition utc_assembled :: "string \<Rightarrow> Date" where
  "utc_assembled s =
     (case dialect_fields s of (y, m, d) \<Rightarrow> createDateFromComps (Some y) (Some m) (Some d))"

definition assembled :: "int \<Rightarrow> int \<Rightarrow> int \<Rightarrow> int" where
  "assembled y m d = MakeDate (MakeDay (if 0 \<le> y \<and> y \<le> 99 then 1900 + y else y) (m - 1) d) 0"

subsection \<open>Hosts and records for the examples\<close>

text \<open>
  Three hosts with a fixed offset: UTC, five hours west of it and one hour east of it.
  All three parse like V8, which accepts a day up to 31 in any month and lets it roll
  over. \<open>sample_parser\<close> stands for the number parser on the few texts the examples use.
\<close>

definition v8_legacy_parse :: "string \<Rightarrow> number" where
  "v8_legacy_parse s =
     (let y = field 0 4 s; m = field 5 2 s; d = field 8 2 s in
      if regex_test date_only_format s \<and> 1 \<le> m \<and> m \<le> 12 \<and> 1 \<le> d \<and> d \<le> 31
      then TimeClip (MakeDate (MakeDay y (m - 1) d) 0)
      else None)"

definition utc_host :: Host where
  "utc_host = \<lparr>LocalTZA = (\<lambda>t. 0), legacy_parse = v8_legacy_parse\<rparr>"

definition new_york_host :: Host where
  "new_york_host = \<lparr>LocalTZA = (\<lambda>t. - 18000000), legacy_parse = v8_legacy_parse\<rparr>"

definition berlin_host :: Host where
  "berlin_host = \<lparr>LocalTZA = (\<lambda>t. 3600000), legacy_parse = v8_legacy_parse\<rparr>"

definition sample_parser :: "string \<Rightarrow> unit error + real" where
  "sample_parser s =
     (if s = ''10'' then Inr 10
      else if s = ''-5'' then Inr (- 5)
      else if s = ''100.50'' then Inr (201 / 2)
      else if s = ''-1.50'' then Inr (- (3 / 2))
      else Inl (NumberParserError ()))"

definition example_raw :: RawTransaction where
  "example_raw =
     \<lparr>executionDate = ''2023-01-02'', type = ''Kauf'', shares = ''10'', price = ''100.50'',
      totalFees = ''-1.50''\<rparr>"

definition example_sale :: RawTransaction where
  "example_sale =
     \<lparr>executionDate = ''2023-01-02'', type = ''Verkauf'', shares = ''-5'', price = ''100.50'',
      totalFees = ''-1.50''\<rparr>"

definition example_quotes :: RawQuoteData where
  "example_quotes =
     \<lparr>RawQuoteData.name = ''ACME'', nsin = ''123456'', exchange = ''XETRA'',
      items = [\<lparr>RawQuoteItem.date = ''2023-01-02'', price = ''100.50''\<rparr>,
               \<lparr>RawQuoteItem.date = ''not a date'', price = ''10''\<rparr>,
               \<lparr>RawQuoteItem.date = ''2023-01-02'', price = ''100.50''\<rparr>]\<rparr>"

section \<open>The date utilities with run-time type errors\<close>

text \<open>
  In the embedding above a validator is a function into \<open>bool\<close>, so that it returns
  normally is built into its type. To state that the validators raise nothing, the
  functions of \<^verbatim>\<open>dateutils.ts\<close> are embedded a second time, over untyped JavaScript
  values: what a built-in hands back is a value of any kind, and a built-in raises
  \<^verbatim>\<open>TypeError\<close> on a receiver it cannot work on, as the language does. A function
  returns a sum, \<open>Inl\<close> being what is thrown: \<open>TypeError\<close> by a built-in, or an
  \<^verbatim>\<open>Error\<close> that the source raises itself.

  The values that occur are \<^verbatim>\<open>undefined\<close>, numbers and strings, arrays of those, and
  \<^verbatim>\<open>Date\<close> objects, which hold a time value.
\<close>

datatype scalar = JSUndefined | JSNumber number | JSString string

datatype "value" = Primitive scalar | JSArray "scalar list" | JSDate number

datatype 'e thrown = TypeError | Thrown "'e error"

text \<open>
  \<^verbatim>\<open>ToNumber\<close> is what \<^verbatim>\<open>Number(x)\<close>, \<^verbatim>\<open>x - 1\<close> and the arguments of
  \<^verbatim>\<open>Date.UTC\<close> apply to a primitive value; \<^verbatim>\<open>undefined\<close> becomes \<^verbatim>\<open>NaN\<close>.

  \<^verbatim>\<open>v.split(sep)\<close> exists on strings only and \<^verbatim>\<open>v.map(Number)\<close> on arrays only: on
  any other value the call raises \<^verbatim>\<open>TypeError\<close>. The array destructuring
  \<^verbatim>\<open>const [a, b, c] = v\<close> iterates \<open>v\<close>, which raises \<^verbatim>\<open>TypeError\<close> unless \<open>v\<close> is an
  array or a string (a string yields its characters), and binds \<^verbatim>\<open>undefined\<close> where
  the iteration has ended (\<open>item\<close>). The methods of \<^verbatim>\<open>Date.prototype\<close> read the time
  value of their receiver and raise \<^verbatim>\<open>TypeError\<close> when it is not a \<^verbatim>\<open>Date\<close>
  (\<open>thisTimeValue\<close>). \<^verbatim>\<open>===\<close> between a number and a value is false unless the value
  is a number.
\<close>

definition ToNumber :: "scalar \<Rightarrow> number" where
  "ToNumber v =
     (case v of JSUndefined \<Rightarrow> None | JSNumber n \<Rightarrow> n | JSString s \<Rightarrow> Number_of_string s)"

fun String_split :: "value \<Rightarrow> (char \<Rightarrow> bool) \<Rightarrow> 'e thrown + value" where
  "String_split (Primitive (JSString s)) sep = Inr (JSArray (map JSString (split_on sep s)))"
| "String_split (Primitive JSUndefined) sep = Inl TypeError"
| "String_split (Primitive (JSNumber n)) sep = Inl TypeError"
| "String_split (JSArray xs) sep = Inl TypeError"
| "String_split (JSDate t) sep = Inl TypeError"

fun Array_map_Number :: "value \<Rightarrow> 'e thrown + value" where
  "Array_map_Number (JSArray xs) = Inr (JSArray (map (\<lambda>x. JSNumber (ToNumber x)) xs))"
| "Array_map_Number (Primitive p) = Inl TypeError"
| "Array_map_Number (JSDate t) = Inl TypeError"

fun iterate :: "value \<Rightarrow> 'e thrown + scalar list" where
  "iterate (JSArray xs) = Inr xs"
| "iterate (Primitive (JSString s)) = Inr (map (\<lambda>c. JSString [c]) s)"
| "iterate (Primitive JSUndefined) = Inl TypeError"
| "iterate (Primitive (JSNumber n)) = Inl TypeError"
| "iterate (JSDate t) = Inl TypeError"

definition item :: "scalar list \<Rightarrow> nat \<Rightarrow> scalar" where
  "item xs i = (if i < length xs then xs ! i else JSUndefined)"

fun thisTimeValue :: "value \<Rightarrow> 'e thrown + number" where
  "thisTimeValue (JSDate t) = Inr t"
| "thisTimeValue (Primitive p) = Inl TypeError"
| "thisTimeValue (JSArray xs) = Inl TypeError"

definition strict_eq_value :: "number \<Rightarrow> scalar \<Rightarrow> bool" where
  "strict_eq_value a v =
     (case v of JSNumber b \<Rightarrow> strict_eq a b | JSUndefined \<Rightarrow> False | JSString s \<Rightarrow> False)"

text \<open>
  The source functions, call by call. The parameter of a validator is a string, as its
  annotation says and as the \<^verbatim>\<open>typeof\<close> test of \<^verbatim>\<open>getDateObject\<close> ensures for the
  calls it makes; a component handed to \<^verbatim>\<open>isValidDateComponents\<close> is whatever the
  destructuring has bound. \<^verbatim>\<open>&&\<close> evaluates its right operand only when the left one is
  true. \<^verbatim>\<open>getDateObject\<close> returns any value that is not a string as it is.
\<close>

definition createDateFromComps_js :: "scalar \<Rightarrow> scalar \<Rightarrow> scalar \<Rightarrow> value" where
  "createDateFromComps_js year month day =
     JSDate (getTime (createDateFromComps (ToNumber year) (ToNumber month) (ToNumber day)))"

definition getCompsFromFormatted_js :: "string \<Rightarrow> 'e thrown + value" where
  "getCompsFromFormatted_js formattedDate =
     (case String_split (Primitive (JSString formattedDate))
             (\<lambda>c. c = CHR 0x5C \<or> c = CHR ''.'' \<or> c = CHR ''/'') of
        Inl x \<Rightarrow> Inl x
      | Inr parts \<Rightarrow> Array_map_Number parts)"

definition isValidDateComponents_js ::
  "Host \<Rightarrow> scalar \<Rightarrow> scalar \<Rightarrow> scalar \<Rightarrow> 'e thrown + bool" where
  "isValidDateComponents_js h year month day =
     (let dateObj = createDateFromComps_js year month day in
      case thisTimeValue dateObj of Inl x \<Rightarrow> Inl x | Inr t1 \<Rightarrow>
        if \<not> strict_eq_value (getFullYear h (Date t1)) year then Inr False
        else case thisTimeValue dateObj of Inl x \<Rightarrow> Inl x | Inr t2 \<Rightarrow>
          if \<not> strict_eq (getMonth h (Date t2)) (map_option (\<lambda>m. m - 1) (ToNumber month))
          then Inr False
          else case thisTimeValue dateObj of Inl x \<Rightarrow> Inl x | Inr t3 \<Rightarrow>
            Inr (strict_eq_value (getDate h (Date t3)) day))"

definition isValidISODateString_js :: "Host \<Rightarrow> string \<Rightarrow> 'e thrown + bool" where
  "isValidISODateString_js h dateString =
     (if \<not> regex_test iso_re dateString then Inr False
      else let dateObj = JSDate (Date_parse h dateString) in
        case thisTimeValue dateObj of Inl x \<Rightarrow> Inl x | Inr t \<Rightarrow>
          if t = None then Inr False
          else case String_split (Primitive (JSString dateString)) (\<lambda>c. c = CHR ''-'') of
            Inl x \<Rightarrow> Inl x | Inr parts \<Rightarrow>
          case Array_map_Number parts of Inl x \<Rightarrow> Inl x | Inr nums \<Rightarrow>
          case iterate nums of Inl x \<Rightarrow> Inl x | Inr its \<Rightarrow>
          case isValidDateComponents_js h (item its 0) (item its 1) (item its 2) of
            Inl x \<Rightarrow> Inl x
          | Inr ok \<Rightarrow> if \<not> ok then Inr False else Inr True)"

definition isValidFormattedString_js :: "Host \<Rightarrow> string \<Rightarrow> 'e thrown + bool" where
  "isValidFormattedString_js h formattedDate =
     (if \<not> (regex_test dot_re formattedDate \<or> regex_test slash_re formattedDate) then Inr False
      else case getCompsFromFormatted_js formattedDate of Inl x \<Rightarrow> Inl x | Inr comps \<Rightarrow>
        case iterate comps of Inl x \<Rightarrow> Inl x | Inr its \<Rightarrow>
        case isValidDateComponents_js h (item its 2) (item its 1) (item its 0) of
          Inl x \<Rightarrow> Inl x
        | Inr ok \<Rightarrow> if \<not> ok then Inr False else Inr True)"

definition createDateFromFormatted_js :: "string \<Rightarrow> 'e thrown + value" where
  "createDateFromFormatted_js formattedDate =
     (case getCompsFromFormatted_js formattedDate of Inl x \<Rightarrow> Inl x | Inr comps \<Rightarrow>
      case iterate comps of Inl x \<Rightarrow> Inl x | Inr its \<Rightarrow>
        Inr (createDateFromComps_js (item its 2) (item its 1) (item its 0)))"

fun getDateObject_js :: "Host \<Rightarrow> value \<Rightarrow> 'e thrown + value" where
  "getDateObject_js h (Primitive (JSString s)) =
     (case isValidISODateString_js h s of
        Inl x \<Rightarrow> Inl x
      | Inr isISO \<Rightarrow>
          if isISO then Inr (JSDate (Date_parse h s))
          else (case isValidFormattedString_js h s of
                  Inl x \<Rightarrow> Inl x
                | Inr isFormatted \<Rightarrow>
                    if isFormatted then createDateFromFormatted_js s
                    else Inl (Thrown (InvalidDateError s))))"
| "getDateObject_js h (Primitive JSUndefined) = Inr (Primitive JSUndefined)"
| "getDateObject_js h (Primitive (JSNumber n)) = Inr (Primitive (JSNumber n))"
| "getDateObject_js h (JSArray xs) = Inr (JSArray xs)"
| "getDateObject_js h (JSDate t) = Inr (JSDate t)"

section \<open>Properties of the calendar arithmetic\<close>

subsection \<open>Years\<close>

lemma div_step:
  fixes x n :: int
  assumes "0 < n"
  shows "(x + 1) div n = x div n + (if (x + 1) mod n = 0 then 1 else 0)"
proof -
  define q where "q = x div n"
  define r where "r = x mod n"
  have x: "x + 1 = (r + 1) + n * q"
    unfolding q_def r_def by simp
  have r: "0 \<le> r" "r < n" using assms by (simp_all add: r_def)
  have n0: "n \<noteq> 0" using assms by simp
  have d: "(x + 1) div n = q + (r + 1) div n"
    unfolding x using n0 by (rule div_mult_self2)
  have m: "(x + 1) mod n = (r + 1) mod n"
    unfolding x by (rule mod_mult_self2)
  show ?thesis
  proof (cases "r + 1 = n")
    case True
    then show ?thesis using d m n0 by (simp add: q_def)
  next
    case False
    then have "r + 1 < n" "0 \<le> r + 1" using r by simp_all
    then have "(r + 1) div n = 0" "(r + 1) mod n = r + 1"
      by simp_all
    then show ?thesis using d m r by (simp add: q_def)
  qed
qed

lemma mod_shift4: "((y::int) - 1968) mod 4 = y mod 4"
proof -
  have "(y - 1968) mod 4 = (y + 4 * (- 492)) mod 4" by simp
  also have "\<dots> = y mod 4" by (rule mod_mult_self2)
  finally show ?thesis .
qed

lemma mod_shift100: "((y::int) - 1900) mod 100 = y mod 100"
proof -
  have "(y - 1900) mod 100 = (y + 100 * (- 19)) mod 100" by simp
  also have "\<dots> = y mod 100" by (rule mod_mult_self2)
  finally show ?thesis .
qed

lemma mod_shift400: "((y::int) - 1600) mod 400 = y mod 400"
proof -
  have "(y - 1600) mod 400 = (y + 400 * (- 4)) mod 400" by simp
  also have "\<dots> = y mod 400" by (rule mod_mult_self2)
  finally show ?thesis .
qed

lemma mod100_mod4: "(y::int) mod 100 = 0 \<Longrightarrow> y mod 4 = 0"
  using dvd_trans [of 4 100 y] by (simp add: mod_eq_0_iff_dvd)

lemma mod400_mod100: "(y::int) mod 400 = 0 \<Longrightarrow> y mod 100 = 0"
  using dvd_trans [of 100 400 y] by (simp add: mod_eq_0_iff_dvd)

lemma DayFromYear_Suc: "DayFromYear (y + 1) = DayFromYear y + DaysInYear y"
proof -
  have a: "(y + 1 - 1969) div 4 = (y - 1969) div 4 + (if y mod 4 = 0 then 1 else 0)"
    using div_step [of 4 "y - 1969"] mod_shift4 [of y] by (simp add: algebra_simps)
  have b: "(y + 1 - 1901) div 100 = (y - 1901) div 100 + (if y mod 100 = 0 then 1 else 0)"
    using div_step [of 100 "y - 1901"] mod_shift100 [of y] by (simp add: algebra_simps)
  have c: "(y + 1 - 1601) div 400 = (y - 1601) div 400 + (if y mod 400 = 0 then 1 else 0)"
    using div_step [of 400 "y - 1601"] mod_shift400 [of y] by (simp add: algebra_simps)
  show ?thesis
    unfolding DayFromYear_def DaysInYear_def a b c
    using mod100_mod4 [of y] mod400_mod100 [of y] by auto
qed

lemma DaysInYear_range: "365 \<le> DaysInYear y" "DaysInYear y \<le> 366"
  unfolding DaysInYear_def by simp_all

lemma DaysInYear_cases: "DaysInYear y = 365 \<or> DaysInYear y = 366"
  unfolding DaysInYear_def by simp

lemma DayFromYear_mono_step: "DayFromYear y < DayFromYear (y + 1)"
  using DayFromYear_Suc [of y] DaysInYear_range(1) [of y] by simp

lemma DayFromYear_add_nat: "DayFromYear y + 365 * int n \<le> DayFromYear (y + int n)
    \<and> DayFromYear (y + int n) \<le> DayFromYear y + 366 * int n"
proof (induction n)
  case 0
  show ?case by simp
next
  case (Suc n)
  have "DayFromYear (y + int (Suc n)) = DayFromYear (y + int n) + DaysInYear (y + int n)"
    using DayFromYear_Suc [of "y + int n"] by (simp add: ac_simps)
  then show ?case
    using Suc DaysInYear_range [of "y + int n"] by simp
qed

lemma DayFromYear_mono: "y \<le> z \<Longrightarrow> DayFromYear y \<le> DayFromYear z"
  using DayFromYear_add_nat [of y "nat (z - y)"] by simp

lemma DayFromYear_strict_mono: "y < z \<Longrightarrow> DayFromYear y < DayFromYear z"
  using DayFromYear_mono [of "y + 1" z] DayFromYear_mono_step [of y] by simp

lemma DayFromYear_1970: "DayFromYear 1970 = 0"
  by (simp add: DayFromYear_def)

lemma DayFromYear_0: "DayFromYear 0 = - 719528"
  by (simp add: DayFromYear_def)

lemma year_estimate: "DayFromYear (1970 + (if 0 \<le> d then d div 366 else d div 365)) \<le> d"
proof (cases "0 \<le> d")
  case True
  define k where "k = nat (d div 366)"
  have k: "int k = d div 366" using True by (simp add: k_def pos_imp_zdiv_nonneg_iff)
  have "DayFromYear (1970 + int k) \<le> 366 * int k"
    using DayFromYear_add_nat [of 1970 k] DayFromYear_1970 by simp
  moreover have "366 * (d div 366) \<le> d"
    using mult_div_mod_eq [of 366 d] pos_mod_sign [of 366 d] by linarith
  ultimately show ?thesis using True k by simp
next
  case False
  define k where "k = nat (- (d div 365))"
  have neg: "d div 365 < 0" using False by (simp add: neg_imp_zdiv_neg_iff)
  have k: "int k = - (d div 365)" using neg by (simp add: k_def)
  have "DayFromYear (1970 + d div 365) + 365 * int k \<le> DayFromYear (1970 + d div 365 + int k)"
    using DayFromYear_add_nat [of "1970 + d div 365" k] by simp
  then have "DayFromYear (1970 + d div 365) \<le> 365 * (d div 365)"
    using k DayFromYear_1970 by simp
  moreover have "365 * (d div 365) \<le> d"
    using mult_div_mod_eq [of 365 d] pos_mod_sign [of 365 d] by linarith
  ultimately show ?thesis using False by simp
qed

lemma year_up_bounds:
  "DayFromYear y \<le> d \<Longrightarrow>
   DayFromYear (year_up d y) \<le> d \<and> d < DayFromYear (year_up d y + 1)"
proof (induction d y rule: year_up.induct)
  case (1 d y)
  show ?case
  proof (cases "DayFromYear (y + 1) \<le> d")
    case True
    then show ?thesis using "1.IH" by (subst (1 2) year_up.simps) simp
  next
    case False
    then show ?thesis using "1.prems" by (subst (1 2) year_up.simps) simp
  qed
qed

lemma YearFromDay_bounds:
  "DayFromYear (YearFromDay d) \<le> d" "d < DayFromYear (YearFromDay d + 1)"
  unfolding YearFromDay_def using year_up_bounds [OF year_estimate] by blast+

lemma YearFromDay_unique:
  assumes "DayFromYear y \<le> d" "d < DayFromYear (y + 1)"
  shows "YearFromDay d = y"
proof (rule ccontr)
  assume ne: "YearFromDay d \<noteq> y"
  show False
  proof (cases "YearFromDay d < y")
    case True
    then have "DayFromYear (YearFromDay d + 1) \<le> DayFromYear y"
      by (intro DayFromYear_mono) simp
    then show False using YearFromDay_bounds(2) [of d] assms(1) by simp
  next
    case False
    then have "DayFromYear (y + 1) \<le> DayFromYear (YearFromDay d)"
      using ne by (intro DayFromYear_mono) simp
    then show False using YearFromDay_bounds(1) [of d] assms(2) by simp
  qed
qed

lemma YearFromDay_mono: "d \<le> e \<Longrightarrow> YearFromDay d \<le> YearFromDay e"
proof (rule ccontr)
  assume le: "d \<le> e" and "\<not> YearFromDay d \<le> YearFromDay e"
  then have "DayFromYear (YearFromDay e + 1) \<le> DayFromYear (YearFromDay d)"
    by (intro DayFromYear_mono) simp
  then show False
    using YearFromDay_bounds(2) [of e] YearFromDay_bounds(1) [of d] le by simp
qed

lemma YearFromDay_DayFromYear: "YearFromDay (DayFromYear y) = y"
  by (rule YearFromDay_unique) (simp_all add: DayFromYear_mono_step)

lemma Day_le_iff: "msPerDay * n \<le> t \<longleftrightarrow> n \<le> Day t"
proof
  assume "msPerDay * n \<le> t"
  then have "(msPerDay * n) div msPerDay \<le> t div msPerDay"
    by (rule zdiv_mono1) (simp add: msPerDay_def)
  then show "n \<le> Day t" by (simp add: Day_def msPerDay_def)
next
  assume "n \<le> Day t"
  then have "msPerDay * n \<le> msPerDay * (t div msPerDay)"
    unfolding Day_def by (intro mult_left_mono) (simp_all add: msPerDay_def)
  moreover have "msPerDay * (t div msPerDay) \<le> t"
    using mult_div_mod_eq [of msPerDay t] pos_mod_sign [of msPerDay t]
    by (simp add: msPerDay_def)
  ultimately show "msPerDay * n \<le> t" by simp
qed

lemma YearFromTime_largest:
  "TimeFromYear (YearFromTime t) \<le> t"
  "TimeFromYear y \<le> t \<Longrightarrow> y \<le> YearFromTime t"
proof -
  show "TimeFromYear (YearFromTime t) \<le> t"
    unfolding TimeFromYear_def YearFromTime_def Day_le_iff by (rule YearFromDay_bounds)
  assume "TimeFromYear y \<le> t"
  then have le: "DayFromYear y \<le> Day t" by (simp add: TimeFromYear_def Day_le_iff)
  show "y \<le> YearFromTime t"
  proof (rule ccontr)
    assume "\<not> y \<le> YearFromTime t"
    then have "DayFromYear (YearFromDay (Day t) + 1) \<le> DayFromYear y"
      unfolding YearFromTime_def by (intro DayFromYear_mono) simp
    then show False using YearFromDay_bounds(2) [of "Day t"] le by simp
  qed
qed

subsection \<open>The components of a time value form a date of the calendar, and conversely\<close>

lemma DayWithinYear_range: "0 \<le> DayWithinYear t" "DayWithinYear t < DaysInYear (YearFromTime t)"
  unfolding DayWithinYear_def YearFromTime_def
  using YearFromDay_bounds [of "Day t"] DayFromYear_Suc [of "YearFromDay (Day t)"]
  by simp_all

lemma MonthFromTime_range: "0 \<le> MonthFromTime t" "MonthFromTime t \<le> 11"
  unfolding MonthFromTime_def Let_def by simp_all

lemma DateFromTime_range:
  "1 \<le> DateFromTime t"
  "DateFromTime t \<le> DaysInMonth (YearFromTime t) (MonthFromTime t + 1)"
  using DayWithinYear_range [of t] DaysInYear_cases [of "YearFromTime t"]
  unfolding DateFromTime_def MonthFromTime_def InLeapYear_def DaysInMonth_def Let_def
  by (auto split: if_splits)

lemma time_components_real:
  "real_date (YearFromTime t) (MonthFromTime t + 1) (DateFromTime t)"
  unfolding real_date_def
  using MonthFromTime_range [of t] DateFromTime_range [of t] by simp

lemma month_cases:
  assumes "1 \<le> (m::int)" "m \<le> 12"
  shows "m = 1 \<or> m = 2 \<or> m = 3 \<or> m = 4 \<or> m = 5 \<or> m = 6 \<or> m = 7 \<or> m = 8 \<or> m = 9
         \<or> m = 10 \<or> m = 11 \<or> m = 12"
  using assms by arith

lemma MakeDay_real:
  assumes "1 \<le> m" "m \<le> 12"
  shows "MakeDay y (m - 1) d =
         DayFromYear y + month_start (m - 1) (if DaysInYear y = 366 then 1 else 0) + d - 1"
proof -
  have "(m - 1) div 12 = 0" "(m - 1) mod 12 = m - 1" using assms by simp_all
  then show ?thesis by (simp add: MakeDay_def)
qed

lemma real_date_offset:
  assumes "real_date y m d"
  shows "0 \<le> month_start (m - 1) (if DaysInYear y = 366 then 1 else 0) + d - 1"
    and "month_start (m - 1) (if DaysInYear y = 366 then 1 else 0) + d - 1 < DaysInYear y"
  using assms month_cases [of m] DaysInYear_cases [of y]
  unfolding real_date_def DaysInMonth_def month_start_def
  by auto

lemma components_of_real_date:
  assumes r: "real_date y m d" and t: "Day t = MakeDay y (m - 1) d"
  shows "YearFromTime t = y" "MonthFromTime t = m - 1" "DateFromTime t = d"
proof -
  have m: "1 \<le> m" "m \<le> 12" using r by (simp_all add: real_date_def)
  define l :: int where "l = (if DaysInYear y = 366 then 1 else 0)"
  have day: "Day t = DayFromYear y + month_start (m - 1) l + d - 1"
    using t MakeDay_real [OF m] by (simp add: l_def)
  have off: "0 \<le> month_start (m - 1) l + d - 1" "month_start (m - 1) l + d - 1 < DaysInYear y"
    using real_date_offset [OF r] by (simp_all add: l_def)
  show y: "YearFromTime t = y"
    unfolding YearFromTime_def
    by (rule YearFromDay_unique) (use day off DayFromYear_Suc [of y] in simp_all)
  have dwy: "DayWithinYear t = month_start (m - 1) l + d - 1"
    by (simp add: DayWithinYear_def y day)
  have leap: "InLeapYear t = l" by (simp add: InLeapYear_def y l_def)
  have d: "1 \<le> d" "d \<le> DaysInMonth y m" using r by (simp_all add: real_date_def)
  have l: "l = 0 \<or> l = 1" by (simp add: l_def)
  have dim: "DaysInMonth y 2 = 28 + l"
    using DaysInYear_cases [of y] by (auto simp: DaysInMonth_def l_def)
  show mo: "MonthFromTime t = m - 1"
    unfolding MonthFromTime_def dwy leap Let_def
    using month_cases [OF m] d l dim
    by (elim disjE) (simp_all add: month_start_def DaysInMonth_def)
  show "DateFromTime t = d"
    unfolding DateFromTime_def mo dwy leap Let_def
    using month_cases [OF m]
    by (elim disjE) (simp_all add: month_start_def)
qed

lemma DateFromTime_alt:
  "DateFromTime t = DayWithinYear t - month_start (MonthFromTime t) (InLeapYear t) + 1"
  unfolding DateFromTime_def month_start_def Let_def by simp

lemma MakeDay_components: "MakeDay (YearFromTime t) (MonthFromTime t) (DateFromTime t) = Day t"
proof -
  have "MonthFromTime t div 12 = 0" "MonthFromTime t mod 12 = MonthFromTime t"
    using MonthFromTime_range [of t] by simp_all
  then show ?thesis
    by (simp add: MakeDay_def DateFromTime_alt InLeapYear_def DayWithinYear_def)
qed

lemma month_start_nonneg: "0 \<le> l \<Longrightarrow> 0 \<le> month_start mn l"
  by (simp add: month_start_def)

subsection \<open>Shifting a UTC midnight by a zone offset\<close>

lemma Day_MakeDate_east:
  assumes "0 \<le> off" "off < msPerDay"
  shows "Day (MakeDate n 0 + off) = n"
proof -
  have "(off + n * msPerDay) div msPerDay = n + off div msPerDay"
    by (rule div_mult_self1) (simp add: msPerDay_def)
  moreover have "off div msPerDay = 0" using assms by simp
  ultimately show ?thesis by (simp add: Day_def MakeDate_def add.commute)
qed

lemma Day_MakeDate_west:
  assumes "- msPerDay \<le> off" "off < 0"
  shows "Day (MakeDate n 0 + off) = n - 1"
proof -
  have "0 \<le> off + msPerDay" "off + msPerDay < msPerDay" using assms by simp_all
  then have "Day (MakeDate (n - 1) 0 + (off + msPerDay)) = n - 1"
    by (rule Day_MakeDate_east)
  moreover have "MakeDate (n - 1) 0 + (off + msPerDay) = MakeDate n 0 + off"
    by (simp add: MakeDate_def algebra_simps)
  ultimately show ?thesis by simp
qed

lemma Day_MakeDate_near:
  assumes "\<bar>off\<bar> < msPerDay"
  shows "n - 1 \<le> Day (MakeDate n 0 + off)"
proof (cases "0 \<le> off")
  case True
  then show ?thesis using Day_MakeDate_east [of off n] assms by simp
next
  case False
  then show ?thesis using Day_MakeDate_west [of off n] assms by simp
qed

lemma Day_MakeDate: "Day (MakeDate n 0) = n"
  using Day_MakeDate_east [of 0 n] by (simp add: msPerDay_def)

lemma MakeDay_first_of_month:
  fixes year month :: int
  defines "t \<equiv> MakeDate (MakeDay year month 1) 0"
  shows "YearFromTime t = year + month div 12"
    and "MonthFromTime t = month mod 12"
    and "DateFromTime t = 1"
    and "MakeDay year month dt = Day t + dt - 1"
proof -
  let ?ym = "year + month div 12" and ?mn = "month mod 12"
  have mn: "1 \<le> ?mn + 1" "?mn + 1 \<le> 12" by simp_all
  have r: "real_date ?ym (?mn + 1) 1"
    using mn by (simp add: real_date_def DaysInMonth_def)
  have "?mn div 12 = 0" "?mn mod 12 = ?mn" by simp_all
  then have first: "MakeDay ?ym ?mn 1 = MakeDay year month 1"
    by (simp add: MakeDay_def)
  have day: "Day t = MakeDay ?ym (?mn + 1 - 1) 1"
    by (simp add: t_def Day_MakeDate first)
  from components_of_real_date [OF r day]
  show "YearFromTime t = year + month div 12" "MonthFromTime t = month mod 12"
    "DateFromTime t = 1"
    by simp_all
  show "MakeDay year month dt = Day t + dt - 1"
    by (simp add: t_def Day_MakeDate MakeDay_def Let_def)
qed

lemma TimeClip_twice: "(case TimeClip t of None \<Rightarrow> None | Some u \<Rightarrow> TimeClip u) = TimeClip t"
  by (simp add: TimeClip_def)

lemma utc_components_of_real_date:
  assumes "real_date y m d"
  shows "getUTCFullYear (Date (Some (MakeDate (MakeDay y (m - 1) d) 0))) = Some y"
    and "getUTCMonth (Date (Some (MakeDate (MakeDay y (m - 1) d) 0))) = Some (m - 1)"
    and "getUTCDate (Date (Some (MakeDate (MakeDay y (m - 1) d) 0))) = Some d"
  using components_of_real_date [OF assms Day_MakeDate]
  by (simp_all add: getUTCFullYear_def getUTCMonth_def getUTCDate_def)

section \<open>Properties of the date utilities\<close>

subsection \<open>What isValidDateComponents accepts\<close>

lemma createDateFromComps_Some:
  "createDateFromComps (Some y) (Some m) (Some d) = Date (TimeClip (assembled y m d))"
  by (simp add: createDateFromComps_def new_Date_value_def Date_UTC_def TimeClip_twice
      assembled_def)

lemma isValidDateComponents_Some:
  "isValidDateComponents h (Some y) (Some m) (Some d) \<longleftrightarrow>
     TimeClip (assembled y m d) = Some (assembled y m d) \<and>
     YearFromTime (LocalTime h (assembled y m d)) = y \<and>
     MonthFromTime (LocalTime h (assembled y m d)) = m - 1 \<and>
     DateFromTime (LocalTime h (assembled y m d)) = d"
  unfolding isValidDateComponents_def createDateFromComps_Some Let_def
  by (auto simp: TimeClip_def strict_eq_def getFullYear_def getMonth_def getDate_def)

lemma isValidDateComponents_None:
  "\<not> isValidDateComponents h None m d"
  "\<not> isValidDateComponents h y None d"
  "\<not> isValidDateComponents h y m None"
  by (simp_all add: isValidDateComponents_def strict_eq_def getMonth_def getDate_def
      createDateFromComps_def new_Date_value_def Date_UTC_def split: option.splits)

lemma valid_components_real:
  assumes "isValidDateComponents h (Some y) (Some m) (Some d)"
  shows "real_date y m d"
proof -
  let ?t = "LocalTime h (assembled y m d)"
  have "real_date (YearFromTime ?t) (MonthFromTime ?t + 1) (DateFromTime ?t)"
    by (rule time_components_real)
  then show ?thesis using assms by (simp add: isValidDateComponents_Some)
qed

lemma valid_components_local_day:
  assumes "isValidDateComponents h (Some y) (Some m) (Some d)"
  shows "Day (LocalTime h (assembled y m d)) = MakeDay y (m - 1) d"
  using MakeDay_components [of "LocalTime h (assembled y m d)"] assms
  by (simp add: isValidDateComponents_Some)

lemma valid_components_year:
  assumes v: "isValidDateComponents h (Some y) (Some m) (Some d)"
    and tz: "\<bar>LocalTZA h (assembled y m d)\<bar> < msPerDay"
  shows "\<not> (0 \<le> y \<and> y \<le> 99)"
proof
  assume small: "0 \<le> y \<and> y \<le> 99"
  have r: "real_date y m d" using v by (rule valid_components_real)
  then have m: "1 \<le> m" "m \<le> 12" and d: "1 \<le> d" by (simp_all add: real_date_def)
  let ?n = "MakeDay (1900 + y) (m - 1) d"
  have a: "assembled y m d = MakeDate ?n 0" using small by (simp add: assembled_def)
  have "DayFromYear 1900 \<le> DayFromYear (1900 + y)"
    using small by (intro DayFromYear_mono) simp
  moreover have "0 \<le> month_start (m - 1) (if DaysInYear (1900 + y) = 366 then 1 else 0)"
    by (rule month_start_nonneg) simp
  ultimately have "DayFromYear 1900 \<le> ?n"
    using d unfolding MakeDay_real [OF m] by simp
  moreover have "?n - 1 \<le> Day (LocalTime h (assembled y m d))"
    unfolding LocalTime_def using Day_MakeDate_near [OF tz, of ?n] a by simp
  moreover have "DayFromYear 1899 \<le> DayFromYear 1900 - 1"
    by (simp add: DayFromYear_def)
  ultimately have "DayFromYear 1899 \<le> Day (LocalTime h (assembled y m d))" by simp
  then have "YearFromDay (DayFromYear 1899) \<le> YearFromTime (LocalTime h (assembled y m d))"
    unfolding YearFromTime_def by (rule YearFromDay_mono)
  then have "1899 \<le> y"
    using v by (simp add: YearFromDay_DayFromYear isValidDateComponents_Some)
  then show False using small by simp
qed

lemma valid_components_east:
  assumes r: "real_date y m d" and y: "\<not> (0 \<le> y \<and> y \<le> 99)"
    and clip: "\<bar>assembled y m d\<bar> \<le> 8640000000000000"
    and tz: "0 \<le> LocalTZA h (assembled y m d)" "LocalTZA h (assembled y m d) < msPerDay"
  shows "isValidDateComponents h (Some y) (Some m) (Some d)"
proof -
  have a: "assembled y m d = MakeDate (MakeDay y (m - 1) d) 0"
    using y by (auto simp: assembled_def)
  have "Day (LocalTime h (assembled y m d)) = MakeDay y (m - 1) d"
    unfolding LocalTime_def using Day_MakeDate_east [OF tz, of "MakeDay y (m - 1) d"] a by simp
  from components_of_real_date [OF r this] clip show ?thesis
    by (simp add: isValidDateComponents_Some TimeClip_def)
qed

lemma valid_components_west:
  assumes tz: "- msPerDay < LocalTZA h (assembled y m d)" "LocalTZA h (assembled y m d) < 0"
  shows "\<not> isValidDateComponents h (Some y) (Some m) (Some d)"
proof
  assume v: "isValidDateComponents h (Some y) (Some m) (Some d)"
  have abs: "\<bar>LocalTZA h (assembled y m d)\<bar> < msPerDay"
    using tz by simp
  have tz': "- msPerDay \<le> LocalTZA h (assembled y m d)" using tz by simp
  have a: "assembled y m d = MakeDate (MakeDay y (m - 1) d) 0"
    using valid_components_year [OF v abs] by (auto simp: assembled_def)
  have "Day (LocalTime h (assembled y m d)) = MakeDay y (m - 1) d - 1"
    unfolding LocalTime_def using Day_MakeDate_west [OF tz' tz(2), of "MakeDay y (m - 1) d"] a by simp
  then show False using valid_components_local_day [OF v] by simp
qed

lemma assembled_in_range:
  assumes r: "real_date y m d" and y: "100 \<le> y" "y \<le> 9999"
  shows "\<bar>assembled y m d\<bar> \<le> 8640000000000000"
proof -
  have m: "1 \<le> m" "m \<le> 12" using r by (simp_all add: real_date_def)
  have a: "assembled y m d = MakeDay y (m - 1) d * msPerDay"
    using y by (simp add: assembled_def MakeDate_def)
  have "DayFromYear 0 + 365 * int (nat y) \<le> DayFromYear (0 + int (nat y))"
       "DayFromYear (0 + int (nat y)) \<le> DayFromYear 0 + 366 * int (nat y)"
    using DayFromYear_add_nat [of 0 "nat y"] by simp_all
  then have dfy: "- 719528 \<le> DayFromYear y" "DayFromYear y \<le> 3000000"
    using y by (simp_all add: DayFromYear_0)
  have "0 \<le> MakeDay y (m - 1) d - DayFromYear y" "MakeDay y (m - 1) d - DayFromYear y < 366"
    using real_date_offset [OF r] DaysInYear_range(2) [of y]
    unfolding MakeDay_real [OF m] by simp_all
  then have "- 719528 \<le> MakeDay y (m - 1) d" "MakeDay y (m - 1) d \<le> 3000366"
    using dfy by simp_all
  then show ?thesis unfolding a msPerDay_def by simp
qed

subsection \<open>Strings that match the regular expressions\<close>

lemma regex_test_Nil: "regex_test [] s \<longleftrightarrow> s = []"
  by (cases s) simp_all

lemma regex_test_Cons:
  "regex_test (r # rs) s \<longleftrightarrow> (\<exists>c cs. s = c # cs \<and> rx_char r c \<and> regex_test rs cs)"
  by (cases s) simp_all

lemma digit_not_separator:
  assumes "is_digit c"
  shows "c \<noteq> CHR ''-''" "c \<noteq> CHR ''.''" "c \<noteq> CHR ''/''" "c \<noteq> CHR 0x5C"
  using assms by (auto simp: is_digit_def)

lemma digit_value_range:
  assumes "is_digit c"
  shows "0 \<le> digit_value c" "digit_value c \<le> 9"
  using assms by (auto simp: is_digit_def digit_value_def)

lemma iso_reE:
  assumes "regex_test iso_re s"
  obtains a b c d e f g i where
    "s = [a, b, c, d, CHR ''-'', e, f, CHR ''-'', g, i]"
    "is_digit a" "is_digit b" "is_digit c" "is_digit d"
    "is_digit e" "is_digit f" "is_digit g" "is_digit i"
  using assms unfolding iso_re_def
  by (auto simp: regex_test_Cons regex_test_Nil)

lemma dot_reE:
  assumes "regex_test dot_re s"
  obtains a b c d e f g i where
    "s = [a, b, CHR ''.'', c, d, CHR ''.'', e, f, g, i]"
    "is_digit a" "is_digit b" "is_digit c" "is_digit d"
    "is_digit e" "is_digit f" "is_digit g" "is_digit i"
  using assms unfolding dot_re_def
  by (auto simp: regex_test_Cons regex_test_Nil)

lemma slash_reE:
  assumes "regex_test slash_re s"
  obtains a b c d e f g i where
    "s = [a, b, CHR ''/'', c, d, CHR ''/'', e, f, g, i]"
    "is_digit a" "is_digit b" "is_digit c" "is_digit d"
    "is_digit e" "is_digit f" "is_digit g" "is_digit i"
  using assms unfolding slash_re_def
  by (auto simp: regex_test_Cons regex_test_Nil)

lemma iso_comps:
  assumes "regex_test iso_re s"
  shows "map Number_of_string (split_on (\<lambda>c. c = CHR ''-'') s) =
         [Some (field 0 4 s), Some (field 5 2 s), Some (field 8 2 s)]"
  using assms
  by (elim iso_reE) (simp add: digit_not_separator Number_of_string_def field_def)

lemma dot_comps:
  assumes "regex_test dot_re s"
  shows "getCompsFromFormatted s = [Some (field 0 2 s), Some (field 3 2 s), Some (field 6 4 s)]"
  using assms unfolding getCompsFromFormatted_def
  by (elim dot_reE) (simp add: digit_not_separator Number_of_string_def field_def)

lemma slash_comps:
  assumes "regex_test slash_re s"
  shows "getCompsFromFormatted s = [Some (field 0 2 s), Some (field 3 2 s), Some (field 6 4 s)]"
  using assms unfolding getCompsFromFormatted_def
  by (elim slash_reE) (simp add: digit_not_separator Number_of_string_def field_def)

lemma iso_not_formatted:
  assumes "regex_test iso_re s"
  shows "\<not> regex_test dot_re s" "\<not> regex_test slash_re s"
  using assms
  by (elim iso_reE; simp add: dot_re_def slash_re_def digit_not_separator)+

lemma formatted_not_iso:
  assumes "regex_test dot_re s \<or> regex_test slash_re s"
  shows "\<not> regex_test iso_re s"
  using assms iso_not_formatted [of s] by blast

lemma field4_range:
  assumes "regex_test iso_re s"
  shows "0 \<le> field 0 4 s" "field 0 4 s \<le> 9999"
proof -
  from assms obtain a b c d e f g i where s: "s = [a, b, c, d, CHR ''-'', e, f, CHR ''-'', g, i]"
    and dig: "is_digit a" "is_digit b" "is_digit c" "is_digit d"
    by (rule iso_reE)
  have v: "field 0 4 s = 1000 * digit_value a + 100 * digit_value b + 10 * digit_value c + digit_value d"
    by (simp add: s field_def digits_value_def)
  show "0 \<le> field 0 4 s" "field 0 4 s \<le> 9999"
    using digit_value_range [OF dig(1)] digit_value_range [OF dig(2)]
      digit_value_range [OF dig(3)] digit_value_range [OF dig(4)]
    unfolding v by linarith+
qed

lemma field4_range_formatted:
  assumes "regex_test dot_re s \<or> regex_test slash_re s"
  shows "0 \<le> field 6 4 s" "field 6 4 s \<le> 9999"
proof -
  from assms obtain a b x c d z e f g i where s: "s = [a, b, x, c, d, z, e, f, g, i]"
    and dig: "is_digit e" "is_digit f" "is_digit g" "is_digit i"
    by (auto elim: dot_reE slash_reE)
  have v: "field 6 4 s = 1000 * digit_value e + 100 * digit_value f + 10 * digit_value g + digit_value i"
    by (simp add: s field_def digits_value_def)
  show "0 \<le> field 6 4 s" "field 6 4 s \<le> 9999"
    using digit_value_range [OF dig(1)] digit_value_range [OF dig(2)]
      digit_value_range [OF dig(3)] digit_value_range [OF dig(4)]
    unfolding v by linarith+
qed

lemma date_only_format_iso: "date_only_format = iso_re"
  by (simp add: date_only_format_def iso_re_def)

lemma Date_parse_real:
  assumes "regex_test iso_re s" "real_date (field 0 4 s) (field 5 2 s) (field 8 2 s)"
  shows "Date_parse h s =
         TimeClip (MakeDate (MakeDay (field 0 4 s) (field 5 2 s - 1) (field 8 2 s)) 0)"
  using assms by (simp add: Date_parse_def date_only_format_iso)

subsection \<open>The validators and getDateObject\<close>

lemma isValidISODateString_iff:
  "isValidISODateString h s \<longleftrightarrow>
     regex_test iso_re s \<and> Date_parse h s \<noteq> None \<and>
     isValidDateComponents h (Some (field 0 4 s)) (Some (field 5 2 s)) (Some (field 8 2 s))"
  by (cases "regex_test iso_re s")
    (simp_all add: isValidISODateString_def new_Date_string_def iso_comps element_def)

lemma isValidFormattedString_iff:
  "isValidFormattedString h s \<longleftrightarrow>
     (regex_test dot_re s \<or> regex_test slash_re s) \<and>
     isValidDateComponents h (Some (field 6 4 s)) (Some (field 3 2 s)) (Some (field 0 2 s))"
  by (cases "regex_test dot_re s"; cases "regex_test slash_re s")
    (simp_all add: isValidFormattedString_def dot_comps slash_comps element_def)

lemma createDateFromFormatted_fields:
  assumes "regex_test dot_re s \<or> regex_test slash_re s"
  shows "createDateFromFormatted s =
         createDateFromComps (Some (field 6 4 s)) (Some (field 3 2 s)) (Some (field 0 2 s))"
  using assms by (auto simp: createDateFromFormatted_def dot_comps slash_comps element_def)

lemma getDateObject_iso_accept:
  assumes re: "regex_test iso_re s"
    and r: "real_date (field 0 4 s) (field 5 2 s) (field 8 2 s)"
    and y: "100 \<le> field 0 4 s"
    and tz: "0 \<le> LocalTZA h (assembled (field 0 4 s) (field 5 2 s) (field 8 2 s))"
            "LocalTZA h (assembled (field 0 4 s) (field 5 2 s) (field 8 2 s)) < msPerDay"
  shows "getDateObject h (Str s) =
         Inr (Date (Some (MakeDate (MakeDay (field 0 4 s) (field 5 2 s - 1) (field 8 2 s)) 0)))"
proof -
  let ?y = "field 0 4 s" and ?m = "field 5 2 s" and ?d = "field 8 2 s"
  have ny: "\<not> (0 \<le> ?y \<and> ?y \<le> 99)" using y by simp
  have clip: "\<bar>assembled ?y ?m ?d\<bar> \<le> 8640000000000000"
    using r y field4_range(2) [OF re] by (rule assembled_in_range)
  have a: "assembled ?y ?m ?d = MakeDate (MakeDay ?y (?m - 1) ?d) 0"
    using y by (simp add: assembled_def)
  have p: "Date_parse h s = Some (MakeDate (MakeDay ?y (?m - 1) ?d) 0)"
    using clip unfolding Date_parse_real [OF re r] a by (simp add: TimeClip_def)
  have "isValidDateComponents h (Some ?y) (Some ?m) (Some ?d)"
    using r ny clip tz by (rule valid_components_east)
  then have "isValidISODateString h s"
    using re p by (simp add: isValidISODateString_iff)
  then show ?thesis by (simp add: getDateObject_def new_Date_string_def p)
qed

lemma getDateObject_formatted_accept:
  assumes re: "regex_test dot_re s \<or> regex_test slash_re s"
    and r: "real_date (field 6 4 s) (field 3 2 s) (field 0 2 s)"
    and y: "100 \<le> field 6 4 s"
    and tz: "0 \<le> LocalTZA h (assembled (field 6 4 s) (field 3 2 s) (field 0 2 s))"
            "LocalTZA h (assembled (field 6 4 s) (field 3 2 s) (field 0 2 s)) < msPerDay"
  shows "getDateObject h (Str s) =
         Inr (Date (Some (MakeDate (MakeDay (field 6 4 s) (field 3 2 s - 1) (field 0 2 s)) 0)))"
proof -
  let ?y = "field 6 4 s" and ?m = "field 3 2 s" and ?d = "field 0 2 s"
  have ny: "\<not> (0 \<le> ?y \<and> ?y \<le> 99)" using y by simp
  have clip: "\<bar>assembled ?y ?m ?d\<bar> \<le> 8640000000000000"
    using r y field4_range_formatted(2) [OF re] by (rule assembled_in_range)
  have a: "assembled ?y ?m ?d = MakeDate (MakeDay ?y (?m - 1) ?d) 0"
    using y by (simp add: assembled_def)
  have "isValidDateComponents h (Some ?y) (Some ?m) (Some ?d)"
    using r ny clip tz by (rule valid_components_east)
  then have v: "isValidFormattedString h s"
    using re by (simp add: isValidFormattedString_iff)
  have "\<not> isValidISODateString h s"
    using formatted_not_iso [OF re] by (simp add: isValidISODateString_iff)
  then show ?thesis
    using v clip
    by (simp add: getDateObject_def createDateFromFormatted_fields [OF re]
        createDateFromComps_Some a TimeClip_def)
qed

lemma getDateObject_iso_utc_components:
  assumes "regex_test iso_re s"
    and "real_date (field 0 4 s) (field 5 2 s) (field 8 2 s)"
    and "100 \<le> field 0 4 s"
    and "0 \<le> LocalTZA h (assembled (field 0 4 s) (field 5 2 s) (field 8 2 s))"
    and "LocalTZA h (assembled (field 0 4 s) (field 5 2 s) (field 8 2 s)) < msPerDay"
  shows "\<exists>dt. getDateObject h (Str s) = Inr dt \<and>
              getUTCFullYear dt = Some (field 0 4 s) \<and>
              getUTCMonth dt = Some (field 5 2 s - 1) \<and>
              getUTCDate dt = Some (field 8 2 s)"
  using getDateObject_iso_accept [OF assms] utc_components_of_real_date [OF assms(2)]
  by blast

lemma getDateObject_west:
  assumes tz: "\<And>t. - msPerDay < LocalTZA h t \<and> LocalTZA h t < 0"
  shows "getDateObject h (Str s) = Inl (InvalidDateError s)"
proof -
  have "\<not> isValidDateComponents h (Some y) (Some m) (Some d)" for y m d
    using tz [of "assembled y m d"] by (intro valid_components_west) simp_all
  then show ?thesis
    by (simp add: getDateObject_def isValidISODateString_iff isValidFormattedString_iff)
qed

lemma getDateObject_early_year:
  assumes re: "regex_test iso_re s" and y: "field 0 4 s \<le> 99"
    and tz: "\<bar>LocalTZA h (assembled (field 0 4 s) (field 5 2 s) (field 8 2 s))\<bar> < msPerDay"
  shows "getDateObject h (Str s) = Inl (InvalidDateError s)"
proof -
  have "\<not> isValidDateComponents h (Some (field 0 4 s)) (Some (field 5 2 s)) (Some (field 8 2 s))"
    using valid_components_year [OF _ tz] field4_range(1) [OF re] y by blast
  then show ?thesis
    using iso_not_formatted [OF re]
    by (simp add: getDateObject_def isValidISODateString_iff isValidFormattedString_iff)
qed

subsection \<open>Examples\<close>

lemmas string_eval =
  iso_re_def dot_re_def slash_re_def is_digit_def field_def digits_value_def digit_value_def

lemmas calendar_eval = real_date_def DaysInMonth_def DaysInYear_def

lemma new_york_west: "- msPerDay < LocalTZA new_york_host t \<and> LocalTZA new_york_host t < 0"
  by (simp add: new_york_host_def msPerDay_def)

lemma MakeDay_2020_12_31: "MakeDate (MakeDay 2020 11 31) 0 = 1609372800000"
  by (simp add: MakeDate_def MakeDay_def DayFromYear_def DaysInYear_def month_start_def
      msPerDay_def)

lemma MakeDay_2023_01_02: "MakeDate (MakeDay 2023 0 2) 0 = 1672617600000"
  by (simp add: MakeDate_def MakeDay_def DayFromYear_def DaysInYear_def month_start_def
      msPerDay_def)

lemma utc_iso_2020_12_31:
  "getDateObject utc_host (Str ''2020-12-31'') = Inr (Date (Some 1609372800000))"
  using getDateObject_iso_accept [of "''2020-12-31''" utc_host]
  by (simp add: string_eval calendar_eval utc_host_def msPerDay_def MakeDay_2020_12_31)

lemma utc_dot_2020_12_31:
  "getDateObject utc_host (Str ''31.12.2020'') = Inr (Date (Some 1609372800000))"
  using getDateObject_formatted_accept [of "''31.12.2020''" utc_host]
  by (simp add: string_eval calendar_eval utc_host_def msPerDay_def MakeDay_2020_12_31)

lemma utc_slash_2020_12_31:
  "getDateObject utc_host (Str ''31/12/2020'') = Inr (Date (Some 1609372800000))"
  using getDateObject_formatted_accept [of "''31/12/2020''" utc_host]
  by (simp add: string_eval calendar_eval utc_host_def msPerDay_def MakeDay_2020_12_31)

lemma utc_iso_2023_01_02:
  "getDateObject utc_host (Str ''2023-01-02'') = Inr (Date (Some 1672617600000))"
  using getDateObject_iso_accept [of "''2023-01-02''" utc_host]
  by (simp add: string_eval calendar_eval utc_host_def msPerDay_def MakeDay_2023_01_02)

lemma sample_parser_values:
  "sample_parser ''10'' = Inr 10"
  "sample_parser ''-5'' = Inr (- 5)"
  "sample_parser ''100.50'' = Inr (201 / 2)"
  "sample_parser ''-1.50'' = Inr (- (3 / 2))"
  by (simp_all add: sample_parser_def)

lemma example_conversion:
  "convertToTransaction utc_host sample_parser example_raw =
     Inr \<lparr>Transaction.date = Date (Some 1672617600000), type = BUY, shares = 10,
          price = 201 / 2, exchange = None, fees = 3 / 2\<rparr>"
  by (simp add: convertToTransaction_def example_raw_def utc_iso_2023_01_02 convertRawType_def
      sample_parser_def)

section \<open>Properties of the converters\<close>

lemma convertToQuoteItem_Inr:
  assumes "convertToQuoteItem pn it = Inr q"
  shows "QuoteItem.date q = RawQuoteItem.date it"
    and "pn (RawQuoteItem.price it) = Inr (QuoteItem.price q)"
  using assms by (auto simp: convertToQuoteItem_def split: sum.splits)

lemma Array_map_all:
  assumes "\<forall>x \<in> set xs. \<exists>y. f x = Inr y"
  shows "\<exists>ys. Array_map f xs = Inr ys \<and> length ys = length xs \<and>
              (\<forall>i < length xs. f (xs ! i) = Inr (ys ! i))"
  using assms
proof (induction xs)
  case Nil
  show ?case by simp
next
  case (Cons x xs)
  from Cons.prems obtain y where y: "f x = Inr y" by auto
  from Cons obtain ys where ys: "Array_map f xs = Inr ys" "length ys = length xs"
    "\<forall>i < length xs. f (xs ! i) = Inr (ys ! i)" by auto
  have "\<forall>i < length (x # xs). f ((x # xs) ! i) = Inr ((y # ys) ! i)"
    using y ys(3) by (auto simp: nth_Cons split: nat.splits)
  then show ?case using y ys(1,2) by simp
qed

section \<open>Properties of the date utilities with run-time type errors\<close>

lemma item_numbers:
  "item (map (\<lambda>x. JSNumber (ToNumber x)) (map JSString ps)) i =
     (if i < length ps then JSNumber (Number_of_string (ps ! i)) else JSUndefined)"
  by (simp add: item_def ToNumber_def)

lemma ToNumber_item:
  "ToNumber (item (map (\<lambda>x. JSNumber (ToNumber x)) (map JSString ps)) i) =
     element (map Number_of_string ps) i"
  unfolding item_numbers by (simp add: element_def ToNumber_def)

lemma number_or_undefined_item:
  "item (map (\<lambda>x. JSNumber (ToNumber x)) (map JSString ps)) i = JSUndefined \<or>
   (\<exists>n. item (map (\<lambda>x. JSNumber (ToNumber x)) (map JSString ps)) i = JSNumber n)"
  unfolding item_numbers by simp

lemma strict_eq_value_ToNumber:
  assumes "v = JSUndefined \<or> (\<exists>n. v = JSNumber n)"
  shows "strict_eq_value a v = strict_eq a (ToNumber v)"
  using assms by (auto simp: strict_eq_value_def ToNumber_def strict_eq_def)

lemma isValidDateComponents_js_typed:
  assumes "y = JSUndefined \<or> (\<exists>n. y = JSNumber n)"
    and "d = JSUndefined \<or> (\<exists>n. d = JSNumber n)"
  shows "isValidDateComponents_js h y m d =
         Inr (isValidDateComponents h (ToNumber y) (ToNumber m) (ToNumber d))"
  by (simp add: isValidDateComponents_js_def isValidDateComponents_def createDateFromComps_js_def
      strict_eq_value_ToNumber [OF assms(1)] strict_eq_value_ToNumber [OF assms(2)] Let_def)

lemma isValidISODateString_js_typed:
  "(isValidISODateString_js h s :: 'e thrown + bool) = Inr (isValidISODateString h s)"
proof -
  let ?ps = "split_on (\<lambda>c. c = CHR ''-'') s"
  let ?its = "map (\<lambda>x. JSNumber (ToNumber x)) (map JSString ?ps)"
  have "(isValidDateComponents_js h (item ?its 0) (item ?its 1) (item ?its 2)
          :: 'e thrown + bool) =
        Inr (isValidDateComponents h (ToNumber (item ?its 0)) (ToNumber (item ?its 1))
               (ToNumber (item ?its 2)))"
    by (rule isValidDateComponents_js_typed) (rule number_or_undefined_item)+
  then have "(isValidDateComponents_js h (item ?its 0) (item ?its 1) (item ?its 2)
          :: 'e thrown + bool) =
        Inr (isValidDateComponents h (element (map Number_of_string ?ps) 0)
               (element (map Number_of_string ?ps) 1) (element (map Number_of_string ?ps) 2))"
    by (simp only: ToNumber_item)
  then show ?thesis
    unfolding isValidISODateString_js_def isValidISODateString_def new_Date_string_def Let_def
      String_split.simps Array_map_Number.simps iterate.simps thisTimeValue.simps sum.case
    by simp
qed

lemma getCompsFromFormatted_js_typed:
  "getCompsFromFormatted_js s =
     Inr (JSArray (map (\<lambda>x. JSNumber (ToNumber x))
       (map JSString (split_on (\<lambda>c. c = CHR 0x5C \<or> c = CHR ''.'' \<or> c = CHR ''/'') s))))"
  unfolding getCompsFromFormatted_js_def String_split.simps sum.case Array_map_Number.simps
  by (rule refl)

lemma isValidFormattedString_js_typed:
  "(isValidFormattedString_js h s :: 'e thrown + bool) = Inr (isValidFormattedString h s)"
proof -
  let ?ps = "split_on (\<lambda>c. c = CHR 0x5C \<or> c = CHR ''.'' \<or> c = CHR ''/'') s"
  let ?its = "map (\<lambda>x. JSNumber (ToNumber x)) (map JSString ?ps)"
  have "(isValidDateComponents_js h (item ?its 2) (item ?its 1) (item ?its 0)
          :: 'e thrown + bool) =
        Inr (isValidDateComponents h (ToNumber (item ?its 2)) (ToNumber (item ?its 1))
               (ToNumber (item ?its 0)))"
    by (rule isValidDateComponents_js_typed) (rule number_or_undefined_item)+
  then have "(isValidDateComponents_js h (item ?its 2) (item ?its 1) (item ?its 0)
          :: 'e thrown + bool) =
        Inr (isValidDateComponents h (element (map Number_of_string ?ps) 2)
               (element (map Number_of_string ?ps) 1) (element (map Number_of_string ?ps) 0))"
    by (simp only: ToNumber_item)
  then show ?thesis
    unfolding isValidFormattedString_js_def isValidFormattedString_def Let_def
      getCompsFromFormatted_js_typed getCompsFromFormatted_def iterate.simps sum.case
    by simp
qed

lemma createDateFromFormatted_js_typed:
  "createDateFromFormatted_js s = Inr (JSDate (getTime (createDateFromFormatted s)))"
proof -
  let ?ps = "split_on (\<lambda>c. c = CHR 0x5C \<or> c = CHR ''.'' \<or> c = CHR ''/'') s"
  let ?its = "map (\<lambda>x. JSNumber (ToNumber x)) (map JSString ?ps)"
  have "createDateFromComps_js (item ?its 2) (item ?its 1) (item ?its 0) =
        JSDate (getTime (createDateFromComps (element (map Number_of_string ?ps) 2)
          (element (map Number_of_string ?ps) 1) (element (map Number_of_string ?ps) 0)))"
    by (simp only: createDateFromComps_js_def ToNumber_item)
  then show ?thesis
    unfolding createDateFromFormatted_js_def createDateFromFormatted_def Let_def
      getCompsFromFormatted_js_typed getCompsFromFormatted_def iterate.simps sum.case
    by simp
qed

lemma getDateObject_js_typed:
  "getDateObject_js h (Primitive (JSString s)) =
     map_sum Thrown (\<lambda>d. JSDate (getTime d)) (getDateObject h (Str s))"
  by (simp add: isValidISODateString_js_typed isValidFormattedString_js_typed
      createDateFromFormatted_js_typed getDateObject_def new_Date_string_def)

section \<open>The claims of the specification\<close>

text \<open>
  \<^bold>\<open>C1.\<close> A string that matches one of the supported patterns but writes down a date
  that the calendar does not have (\<^verbatim>\<open>2025-06-31\<close>, \<^verbatim>\<open>31.06.2025\<close>,
  \<^verbatim>\<open>31/06/2025\<close>) makes \<^verbatim>\<open>getDateObject\<close> fail with the invalid-date error carrying
  that string; no rolled-forward date is returned, and it is the round-trip check
  \<^verbatim>\<open>isValidDateComponents\<close> that refuses the components. This holds on every host,
  whatever its time zone and whatever its parser does with such a string.
\<close>

theorem C1_impossible_date_rejected:
  assumes re: "regex_test iso_re s \<or> regex_test dot_re s \<or> regex_test slash_re s"
    and f: "dialect_fields s = (y, m, d)"
    and imp: "\<not> real_date y m d"
  shows "getDateObject h (Str s) = (Inl (InvalidDateError s) :: 'e error + Date) \<and>
         \<not> isValidDateComponents h (Some y) (Some m) (Some d)"
proof -
  have nv: "\<not> isValidDateComponents h (Some y) (Some m) (Some d)"
    using imp valid_components_real by blast
  show ?thesis
  proof (cases "regex_test iso_re s")
    case True
    then have "y = field 0 4 s" "m = field 5 2 s" "d = field 8 2 s"
      using f by (simp_all add: dialect_fields_def)
    then show ?thesis
      using nv True iso_not_formatted [OF True]
      by (simp add: getDateObject_def isValidISODateString_iff isValidFormattedString_iff)
  next
    case False
    then have "y = field 6 4 s" "m = field 3 2 s" "d = field 0 2 s"
      using f by (simp_all add: dialect_fields_def)
    then show ?thesis
      using nv False
      by (simp add: getDateObject_def isValidISODateString_iff isValidFormattedString_iff)
  qed
qed

text \<open>The three strings of the specification, on three hosts.\<close>

theorem C1_impossible_date_rejected_witness:
  "\<not> real_date 2025 6 31 \<and>
   getDateObject utc_host (Str ''2025-06-31'') = (Inl (InvalidDateError ''2025-06-31'') :: unit error + Date) \<and>
   getDateObject berlin_host (Str ''31.06.2025'') = (Inl (InvalidDateError ''31.06.2025'') :: unit error + Date) \<and>
   getDateObject new_york_host (Str ''31/06/2025'') = (Inl (InvalidDateError ''31/06/2025'') :: unit error + Date)"
  using C1_impossible_date_rejected [where 'e = unit, of "''2025-06-31''" 2025 6 31 utc_host]
    C1_impossible_date_rejected [where 'e = unit, of "''31.06.2025''" 2025 6 31 berlin_host]
    C1_impossible_date_rejected [where 'e = unit, of "''31/06/2025''" 2025 6 31 new_york_host]
  by (simp add: string_eval calendar_eval dialect_fields_def)

text \<open>
  \<^bold>\<open>C2.\<close> "Every string of the form \<^verbatim>\<open>YYYY-MM-DD\<close> that denotes a real calendar date is
  accepted by \<^verbatim>\<open>getDateObject\<close>, and the returned date has that year, month and day in
  UTC." The code does not do this. \<^verbatim>\<open>isValidDateComponents\<close> builds the date with
  \<^verbatim>\<open>Date.UTC\<close> and reads it back with the local-time accessors, so on a host west of
  UTC the UTC midnight falls on the evening before and the comparison fails: there
  \<^verbatim>\<open>2025-06-15\<close> is refused, like every other string (\<open>getDateObject_west\<close>).
  Independently of the zone, \<^verbatim>\<open>Date.UTC\<close> maps the years 0 to 99 into 1900 to 1999, so
  \<^verbatim>\<open>0050-06-15\<close> is refused on every host. The theorem evaluates the code at both
  inputs. What does hold is \<open>getDateObject_iso_utc_components\<close>: a real date from the
  year 100 on is accepted, with its components in UTC, on a host whose offset at that
  midnight is between 0 and 24 hours.
\<close>

theorem C2_real_iso_dates_rejected:
  "real_date 2025 6 15 \<and>
   getDateObject new_york_host (Str ''2025-06-15'') = (Inl (InvalidDateError ''2025-06-15'') :: unit error + Date) \<and>
   real_date 50 6 15 \<and>
   getDateObject utc_host (Str ''0050-06-15'') = (Inl (InvalidDateError ''0050-06-15'') :: unit error + Date)"
  using getDateObject_west [where 'a = unit, of new_york_host "''2025-06-15''", OF new_york_west]
    getDateObject_early_year [where 'a = unit, of "''0050-06-15''" utc_host]
  by (simp add: string_eval calendar_eval utc_host_def msPerDay_def)

text \<open>
  \<^bold>\<open>C3.\<close> When the date, the type and the three numbers of a raw transaction all
  convert, \<^verbatim>\<open>convertToTransaction\<close> returns a transaction whose shares are the absolute
  value of the parsed shares, whose fees are the absolute value of the parsed total fees
  (so neither is negative), and whose price is the parsed price as it is.
\<close>

theorem C3_magnitudes:
  fixes pn :: "string \<Rightarrow> 'e error + real"
  assumes "(getDateObject h (Str (executionDate data)) :: 'e error + Date) = Inr dt"
    and "(convertRawType (RawTransaction.type data) :: 'e error + TransactionType) = Inr ty"
    and "pn (RawTransaction.shares data) = Inr n"
    and "pn (RawTransaction.price data) = Inr p"
    and "pn (totalFees data) = Inr f"
  shows "\<exists>t. convertToTransaction h pn data = Inr t \<and>
             Transaction.shares t = \<bar>n\<bar> \<and> fees t = \<bar>f\<bar> \<and> Transaction.price t = p \<and>
             0 \<le> Transaction.shares t \<and> 0 \<le> fees t"
  using assms by (simp add: convertToTransaction_def)

text \<open>A sale of \<^verbatim>\<open>-5\<close> shares with fees of \<^verbatim>\<open>-1.50\<close>.\<close>

theorem C3_magnitudes_witness:
  "\<exists>t. convertToTransaction utc_host sample_parser example_sale = Inr t \<and>
        Transaction.shares t = \<bar>- 5\<bar> \<and> fees t = \<bar>- (3 / 2)\<bar> \<and>
        Transaction.price t = 201 / 2 \<and> 0 \<le> Transaction.shares t \<and> 0 \<le> fees t"
proof (rule C3_magnitudes)
  show "getDateObject utc_host (Str (executionDate example_sale)) =
        (Inr (Date (Some 1672617600000)) :: unit error + Date)"
    by (simp add: example_sale_def utc_iso_2023_01_02)
  show "convertRawType (RawTransaction.type example_sale) =
        (Inr SELL :: unit error + TransactionType)"
    by (simp add: example_sale_def convertRawType_def)
  show "sample_parser (RawTransaction.shares example_sale) = Inr (- 5)"
    by (simp add: example_sale_def sample_parser_def)
  show "sample_parser (RawTransaction.price example_sale) = Inr (201 / 2)"
    by (simp add: example_sale_def sample_parser_def)
  show "sample_parser (totalFees example_sale) = Inr (- (3 / 2))"
    by (simp add: example_sale_def sample_parser_def)
qed

text \<open>
  \<^bold>\<open>C4.\<close> \<^verbatim>\<open>convertRawType\<close> maps \<^verbatim>\<open>Kauf\<close> to \<open>BUY\<close> and \<^verbatim>\<open>Verkauf\<close> to
  \<open>SELL\<close>; every other token fails with the unknown-type error carrying the token. The
  match is exact: \<open>BUY\<close> is returned for \<^verbatim>\<open>Kauf\<close> only and \<open>SELL\<close> for \<^verbatim>\<open>Verkauf\<close>
  only.
\<close>

theorem C4_exact_tokens:
  "(convertRawType ''Kauf'' :: 'e error + TransactionType) = Inr BUY \<and>
   (convertRawType ''Verkauf'' :: 'e error + TransactionType) = Inr SELL \<and>
   (rawType \<noteq> ''Kauf'' \<and> rawType \<noteq> ''Verkauf'' \<longrightarrow>
      (convertRawType rawType :: 'e error + TransactionType) =
        Inl (UnknownTransactionTypeError rawType)) \<and>
   ((convertRawType rawType :: 'e error + TransactionType) = Inr BUY \<longleftrightarrow> rawType = ''Kauf'') \<and>
   ((convertRawType rawType :: 'e error + TransactionType) = Inr SELL \<longleftrightarrow> rawType = ''Verkauf'')"
  by (simp add: convertRawType_def)

text \<open>Variants in case, padded variants and the empty token are refused.\<close>

theorem C4_exact_tokens_witness:
  "(convertRawType ''kauf'' :: unit error + TransactionType) =
     Inl (UnknownTransactionTypeError ''kauf'') \<and>
   (convertRawType ''VERKAUF'' :: unit error + TransactionType) =
     Inl (UnknownTransactionTypeError ''VERKAUF'') \<and>
   (convertRawType '' Kauf'' :: unit error + TransactionType) =
     Inl (UnknownTransactionTypeError '' Kauf'') \<and>
   (convertRawType ''Kauf '' :: unit error + TransactionType) =
     Inl (UnknownTransactionTypeError ''Kauf '') \<and>
   (convertRawType [] :: unit error + TransactionType) = Inl (UnknownTransactionTypeError [])"
  using C4_exact_tokens [where 'e = unit, of "''kauf''"]
    C4_exact_tokens [where 'e = unit, of "''VERKAUF''"]
    C4_exact_tokens [where 'e = unit, of "'' Kauf''"]
    C4_exact_tokens [where 'e = unit, of "''Kauf ''"]
    C4_exact_tokens [where 'e = unit, of "[]"]
  by simp

text \<open>
  \<^bold>\<open>C5.\<close> When the price of every item parses, \<^verbatim>\<open>convertToQuoteData\<close> returns a quote
  series with the name, the identifier and the exchange of the input, with as many
  items in the same order, the date of each item being the text of the input item
  unchanged and its price the number parsed from the input item's price.
\<close>

theorem C5_quote_series:
  assumes "\<forall>it \<in> set (RawQuoteData.items data). \<exists>p. pn (RawQuoteItem.price it) = Inr p"
  shows "\<exists>q. convertToQuoteData pn data = Inr q \<and>
             QuoteData.name q = RawQuoteData.name data \<and>
             QuoteData.nsin q = RawQuoteData.nsin data \<and>
             QuoteData.exchange q = RawQuoteData.exchange data \<and>
             length (QuoteData.items q) = length (RawQuoteData.items data) \<and>
             (\<forall>i < length (RawQuoteData.items data).
                QuoteItem.date (QuoteData.items q ! i) =
                  RawQuoteItem.date (RawQuoteData.items data ! i) \<and>
                pn (RawQuoteItem.price (RawQuoteData.items data ! i)) =
                  Inr (QuoteItem.price (QuoteData.items q ! i)))"
proof -
  have "\<forall>it \<in> set (RawQuoteData.items data). \<exists>y. convertToQuoteItem pn it = Inr y"
    using assms by (auto simp: convertToQuoteItem_def)
  from Array_map_all [OF this] obtain its where its:
    "Array_map (convertToQuoteItem pn) (RawQuoteData.items data) = Inr its"
    "length its = length (RawQuoteData.items data)"
    "\<forall>i < length (RawQuoteData.items data).
       convertToQuoteItem pn (RawQuoteData.items data ! i) = Inr (its ! i)"
    by blast
  have "QuoteItem.date (its ! i) = RawQuoteItem.date (RawQuoteData.items data ! i) \<and>
        pn (RawQuoteItem.price (RawQuoteData.items data ! i)) = Inr (QuoteItem.price (its ! i))"
    if "i < length (RawQuoteData.items data)" for i
    using convertToQuoteItem_Inr [OF its(3) [rule_format, OF that]] by simp
  then show ?thesis using its(1,2) by (simp add: convertToQuoteData_def)
qed

text \<open>Three items, the second with a date text that is no date: it passes through.\<close>

theorem C5_quote_series_witness:
  "\<exists>q. convertToQuoteData sample_parser example_quotes = Inr q \<and>
        QuoteData.name q = ''ACME'' \<and> QuoteData.nsin q = ''123456'' \<and>
        QuoteData.exchange q = ''XETRA'' \<and> length (QuoteData.items q) = 3 \<and>
        QuoteItem.date (QuoteData.items q ! 1) = ''not a date'' \<and>
        QuoteItem.price (QuoteData.items q ! 1) = 10"
proof -
  have "\<forall>it \<in> set (RawQuoteData.items example_quotes).
          \<exists>p. sample_parser (RawQuoteItem.price it) = Inr p"
    by (auto simp: example_quotes_def intro: sample_parser_values)
  from C5_quote_series [OF this] obtain q where q:
    "convertToQuoteData sample_parser example_quotes = Inr q"
    "QuoteData.name q = RawQuoteData.name example_quotes"
    "QuoteData.nsin q = RawQuoteData.nsin example_quotes"
    "QuoteData.exchange q = RawQuoteData.exchange example_quotes"
    "length (QuoteData.items q) = length (RawQuoteData.items example_quotes)"
    "\<forall>i < length (RawQuoteData.items example_quotes).
       QuoteItem.date (QuoteData.items q ! i) =
         RawQuoteItem.date (RawQuoteData.items example_quotes ! i) \<and>
       sample_parser (RawQuoteItem.price (RawQuoteData.items example_quotes ! i)) =
         Inr (QuoteItem.price (QuoteData.items q ! i))"
    by blast
  have "1 < length (RawQuoteData.items example_quotes)" by (simp add: example_quotes_def)
  from q(6) [rule_format, OF this]
  have "QuoteItem.date (QuoteData.items q ! 1) = ''not a date''"
    "QuoteItem.price (QuoteData.items q ! 1) = 10"
    by (simp_all add: example_quotes_def sample_parser_def)
  then show ?thesis using q(1-5) by (simp add: example_quotes_def)
qed

text \<open>
  \<^bold>\<open>C6.\<close> "\<^verbatim>\<open>31.12.2020\<close>, \<^verbatim>\<open>31/12/2020\<close> and \<^verbatim>\<open>2020-12-31\<close> are all accepted and
  give the same UTC date, 31 December 2020." On a host at UTC they are, and the three
  dates are the same time value 1609372800000. On a host west of UTC all three are
  refused, for the reason given under C2: the round-trip check reads a date built with
  \<^verbatim>\<open>Date.UTC\<close> through the local-time accessors.
\<close>

theorem C6_dialects_depend_on_host_zone:
  "getDateObject utc_host (Str ''31.12.2020'') = (Inr (Date (Some 1609372800000)) :: unit error + Date) \<and>
   getDateObject utc_host (Str ''31/12/2020'') = (Inr (Date (Some 1609372800000)) :: unit error + Date) \<and>
   getDateObject utc_host (Str ''2020-12-31'') = (Inr (Date (Some 1609372800000)) :: unit error + Date) \<and>
   getDateObject new_york_host (Str ''31.12.2020'') = (Inl (InvalidDateError ''31.12.2020'') :: unit error + Date) \<and>
   getDateObject new_york_host (Str ''31/12/2020'') = (Inl (InvalidDateError ''31/12/2020'') :: unit error + Date) \<and>
   getDateObject new_york_host (Str ''2020-12-31'') = (Inl (InvalidDateError ''2020-12-31'') :: unit error + Date)"
  using getDateObject_west [where 'a = unit, OF new_york_west]
  by (simp add: utc_dot_2020_12_31 utc_slash_2020_12_31 utc_iso_2020_12_31)

text \<open>
  \<^bold>\<open>C7.\<close> When the conversion of any field of a raw transaction fails (the date, the
  type or one of the three numbers), \<^verbatim>\<open>convertToTransaction\<close> fails too, with the
  error of one of the failing fields: no transaction is returned and no default value
  stands in for the field. The arguments are converted in the order of the call, so a
  failing date decides the error, and after a good date a failing type does.
\<close>

theorem C7_failure_propagates:
  fixes pn :: "string \<Rightarrow> 'e error + real"
  assumes "isl (getDateObject h (Str (executionDate data)) :: 'e error + Date) \<or>
           isl (convertRawType (RawTransaction.type data) :: 'e error + TransactionType) \<or>
           isl (pn (RawTransaction.shares data)) \<or>
           isl (pn (RawTransaction.price data)) \<or>
           isl (pn (totalFees data))"
  shows "\<exists>e. convertToTransaction h pn data = Inl e \<and>
           (getDateObject h (Str (executionDate data)) = Inl e \<or>
            convertRawType (RawTransaction.type data) = Inl e \<or>
            pn (RawTransaction.shares data) = Inl e \<or>
            pn (RawTransaction.price data) = Inl e \<or>
            pn (totalFees data) = Inl e) \<and>
           (\<forall>e1. getDateObject h (Str (executionDate data)) = Inl e1 \<longrightarrow> e = e1) \<and>
           (\<forall>dt e2. (getDateObject h (Str (executionDate data)) :: 'e error + Date) = Inr dt \<and>
              convertRawType (RawTransaction.type data) = Inl e2 \<longrightarrow> e = e2)"
  using assms by (auto simp: convertToTransaction_def split: sum.splits)

text \<open>An unknown type token, and a share count that the parser refuses.\<close>

theorem C7_failure_propagates_witness:
  "convertToTransaction utc_host sample_parser
     \<lparr>executionDate = ''2023-01-02'', type = ''Hold'', shares = ''10'', price = ''100.50'',
      totalFees = ''-1.50''\<rparr> = Inl (UnknownTransactionTypeError ''Hold'') \<and>
   convertToTransaction utc_host sample_parser
     \<lparr>executionDate = ''2023-01-02'', type = ''Kauf'', shares = ''ten'', price = ''100.50'',
      totalFees = ''-1.50''\<rparr> = Inl (NumberParserError ())"
  using C7_failure_propagates [of utc_host
      "\<lparr>executionDate = ''2023-01-02'', type = ''Hold'', shares = ''10'', price = ''100.50'',
        totalFees = ''-1.50''\<rparr>" sample_parser]
    C7_failure_propagates [of utc_host
      "\<lparr>executionDate = ''2023-01-02'', type = ''Kauf'', shares = ''ten'', price = ''100.50'',
        totalFees = ''-1.50''\<rparr>" sample_parser]
  by (simp add: utc_iso_2023_01_02 convertRawType_def sample_parser_def)

text \<open>
  \<^bold>\<open>C8.\<close> Every date that \<^verbatim>\<open>getDateObject\<close> returns for a string is the date that
  UTC-based component assembly makes of the year, month and day written in the string;
  in particular \<^verbatim>\<open>new Date(dateString)\<close> in the ISO branch agrees with
  \<^verbatim>\<open>createDateFromComps\<close> on every accepted ISO string. The host's zone offset is
  taken to be less than a day in absolute value, as every time zone offset is.
\<close>

theorem C8_utc_component_assembly:
  assumes tz: "\<forall>t. \<bar>LocalTZA h t\<bar> < msPerDay"
    and acc: "getDateObject h (Str s) = Inr dt"
  shows "dt = utc_assembled s"
proof (cases "isValidISODateString h s")
  case True
  let ?y = "field 0 4 s" and ?m = "field 5 2 s" and ?d = "field 8 2 s"
  from True have re: "regex_test iso_re s"
    and v: "isValidDateComponents h (Some ?y) (Some ?m) (Some ?d)"
    by (simp_all add: isValidISODateString_iff)
  have r: "real_date ?y ?m ?d" using v by (rule valid_components_real)
  have ny: "\<not> (0 \<le> ?y \<and> ?y \<le> 99)"
    using v tz [rule_format] by (rule valid_components_year)
  have "dt = Date (Date_parse h s)"
    using acc True by (simp add: getDateObject_def new_Date_string_def)
  also have "\<dots> = Date (TimeClip (assembled ?y ?m ?d))"
    using ny unfolding Date_parse_real [OF re r] by (auto simp: assembled_def)
  also have "\<dots> = utc_assembled s"
    using re by (simp add: utc_assembled_def dialect_fields_def createDateFromComps_Some)
  finally show ?thesis .
next
  case False
  then have f: "isValidFormattedString h s"
    using acc by (auto simp: getDateObject_def split: if_splits)
  then have re: "regex_test dot_re s \<or> regex_test slash_re s"
    by (simp add: isValidFormattedString_iff)
  have "dt = createDateFromFormatted s"
    using acc False f by (simp add: getDateObject_def)
  then show ?thesis
    using formatted_not_iso [OF re]
    by (simp add: createDateFromFormatted_fields [OF re] utc_assembled_def dialect_fields_def)
qed

text \<open>Both branches at UTC.\<close>

theorem C8_utc_component_assembly_witness:
  "utc_assembled ''2020-12-31'' = Date (Some 1609372800000) \<and>
   utc_assembled ''31.12.2020'' = Date (Some 1609372800000)"
proof -
  have tz: "\<forall>t. \<bar>LocalTZA utc_host t\<bar> < msPerDay"
    by (simp add: utc_host_def msPerDay_def)
  show ?thesis
    using C8_utc_component_assembly [OF tz utc_iso_2020_12_31]
      C8_utc_component_assembly [OF tz utc_dot_2020_12_31]
    by simp
qed

text \<open>
  \<^bold>\<open>C9.\<close> Every transaction that \<^verbatim>\<open>convertToTransaction\<close> returns has the exchange
  \<^verbatim>\<open>null\<close>, the marker for "unknown" (\<open>None\<close>), whatever the input.
\<close>

theorem C9_exchange_unknown:
  assumes "convertToTransaction h pn data = Inr t"
  shows "Transaction.exchange t = None"
  using assms by (auto simp: convertToTransaction_def split: sum.splits)

text \<open>The end-to-end example of the specification.\<close>

theorem C9_exchange_unknown_witness:
  "\<exists>t. convertToTransaction utc_host sample_parser example_raw = Inr t \<and>
        Transaction.exchange t = None"
  using C9_exchange_unknown [OF example_conversion] example_conversion by simp

text \<open>
  \<^bold>\<open>C10.\<close> On every string, the empty one and malformed text included, the two
  validators return a truth value and raise nothing: in the embedding with run-time
  type errors each of them returns \<open>Inr\<close> of what the typed validator computes.
  \<^verbatim>\<open>getDateObject\<close> on a string therefore fails exactly when both validators return
  false, then with the invalid-date error carrying that string, and never with a
  \<^verbatim>\<open>TypeError\<close>; what it returns or raises is what the typed embedding says.
\<close>

theorem C10_validators_never_throw:
  "(isValidISODateString_js h s :: 'e thrown + bool) = Inr (isValidISODateString h s) \<and>
   (isValidFormattedString_js h s :: 'e thrown + bool) = Inr (isValidFormattedString h s) \<and>
   ((getDateObject_js h (Primitive (JSString s)) :: 'e thrown + value) = Inl x \<longleftrightarrow>
      isValidISODateString_js h s = (Inr False :: 'e thrown + bool) \<and>
      isValidFormattedString_js h s = (Inr False :: 'e thrown + bool) \<and>
      x = Thrown (InvalidDateError s)) \<and>
   (getDateObject_js h (Primitive (JSString s)) :: 'e thrown + value) \<noteq> Inl TypeError \<and>
   (getDateObject_js h (Primitive (JSString s)) :: 'e thrown + value) =
     map_sum Thrown (\<lambda>d. JSDate (getTime d)) (getDateObject h (Str s))"
  by (auto simp: isValidISODateString_js_typed isValidFormattedString_js_typed
      createDateFromFormatted_js_typed getDateObject_def new_Date_string_def)

text \<open>The empty string and a malformed one.\<close>

theorem C10_validators_never_throw_witness:
  "isValidISODateString_js berlin_host [] = (Inr False :: unit thrown + bool) \<and>
   isValidFormattedString_js berlin_host [] = (Inr False :: unit thrown + bool) \<and>
   (getDateObject_js berlin_host (Primitive (JSString [])) :: unit thrown + value) =
     Inl (Thrown (InvalidDateError [])) \<and>
   (getDateObject_js berlin_host (Primitive (JSString ''12-2020-31x'')) :: unit thrown + value) =
     Inl (Thrown (InvalidDateError ''12-2020-31x''))"
  using C10_validators_never_throw [where 'e = unit, of berlin_host "[]"
      "Thrown (InvalidDateError [])"]
    C10_validators_never_throw [where 'e = unit, of berlin_host "''12-2020-31x''"
      "Thrown (InvalidDateError ''12-2020-31x'')"]
  by (simp add: isValidISODateString_iff isValidFormattedString_iff string_eval)

end
